theory Spec2Isabelle
  imports Complex_Main "HOL-Library.Sublist"
begin

section \<open>Highlight detection of the clip pipeline\<close>

text \<open>
  A shallow embedding of \<^verbatim>\<open>src/core/content_analyzer.py\<close> (class ContentAnalyzer) and
  \<^verbatim>\<open>src/ai/llm_analyzer.py\<close> (class LLMAnalyzer).

  Conventions of the embedding.
  \<^item> Python floats (timestamps, scores, confidences) are real numbers: rounding is not
    modelled. Every concrete input used below is a small integer or a short decimal.
  \<^item> Python strings are \<open>string\<close> (lists of characters); \<open>lower\<close>, \<open>split\<close>,
    \<open>strip\<close> and \<open>title\<close> are modelled on ASCII.
  \<^item> A raised exception is a value \<open>Inl e\<close> of \<open>py_error + 'a\<close>.
  \<^item> A dictionary with a fixed set of keys is a record; a key that may be absent is an
    \<open>option\<close> field, and \<open>d.get(k, default)\<close> is \<open>get_default\<close>.
\<close>

subsection \<open>Python strings\<close>

datatype py_error = KeyError | IndexError | ZeroDivisionError | GenerateError

text \<open>\<^verbatim>\<open>d.get(key, default)\<close> on an optional key.\<close>

definition get_default :: "'a \<Rightarrow> 'a option \<Rightarrow> 'a" where
  "get_default d v = (case v of None \<Rightarrow> d | Some x \<Rightarrow> x)"

text \<open>\<^verbatim>\<open>s.startswith(p)\<close> and the substring test \<^verbatim>\<open>sub in s\<close>.\<close>

fun startswith :: "string \<Rightarrow> string \<Rightarrow> bool" where
  "startswith s [] = True"
| "startswith [] (p # ps) = False"
| "startswith (c # cs) (p # ps) = (c = p \<and> startswith cs ps)"

fun py_in :: "string \<Rightarrow> string \<Rightarrow> bool" where
  "py_in sub [] = (sub = [])"
| "py_in sub (c # cs) = (startswith (c # cs) sub \<or> py_in sub cs)"

definition ascii_uppercase :: string where
  "ascii_uppercase = ''ABCDEFGHIJKLMNOPQRSTUVWXYZ''"

definition ascii_lowercase :: string where
  "ascii_lowercase = ''abcdefghijklmnopqrstuvwxyz''"

definition is_upper :: "char \<Rightarrow> bool" where
  "is_upper c = (c \<in> set ascii_uppercase)"

definition is_lower :: "char \<Rightarrow> bool" where
  "is_lower c = (c \<in> set ascii_lowercase)"

definition lower_char :: "char \<Rightarrow> char" where
  "lower_char c = (case map_of (zip ascii_uppercase ascii_lowercase) c of None \<Rightarrow> c | Some d \<Rightarrow> d)"

definition upper_char :: "char \<Rightarrow> char" where
  "upper_char c = (case map_of (zip ascii_lowercase ascii_uppercase) c of None \<Rightarrow> c | Some d \<Rightarrow> d)"

definition lower :: "string \<Rightarrow> string" where
  "lower s = map lower_char s"

text \<open>The ASCII characters for which \<^verbatim>\<open>str.isspace\<close> holds: space, tab, line feed,
  vertical tab, form feed, carriage return and the four separators 28 to 31.\<close>

definition isspace :: "char \<Rightarrow> bool" where
  "isspace c = (c \<in> set [CHR 0x20, CHR 0x09, CHR 0x0A, CHR 0x0B, CHR 0x0C, CHR 0x0D,
                            CHR 0x1C, CHR 0x1D, CHR 0x1E, CHR 0x1F])"

text \<open>\<^verbatim>\<open>s.split()\<close>: the maximal runs of non-space characters. \<open>w\<close> is the word read so
  far, in reverse.\<close>

fun split_acc :: "string \<Rightarrow> string \<Rightarrow> string list" where
  "split_acc w [] = (if w = [] then [] else [rev w])"
| "split_acc w (c # cs) =
     (if isspace c then (if w = [] then split_acc [] cs else rev w # split_acc [] cs)
      else split_acc (c # w) cs)"

definition split :: "string \<Rightarrow> string list" where
  "split s = split_acc [] s"

text \<open>\<^verbatim>\<open>s.strip()\<close>.\<close>

definition strip :: "string \<Rightarrow> string" where
  "strip s = rev (dropWhile isspace (rev (dropWhile isspace s)))"

text \<open>\<^verbatim>\<open>s.title()\<close>: a letter is upper-cased when the character before it is not a
  letter and lower-cased otherwise. \<open>prev\<close> says that the previous character is a letter.\<close>

fun title_acc :: "bool \<Rightarrow> string \<Rightarrow> string" where
  "title_acc prev [] = []"
| "title_acc prev (c # cs) =
     (if is_upper c \<or> is_lower c
      then (if prev then lower_char c else upper_char c) # title_acc True cs
      else c # title_acc False cs)"

definition title_case :: "string \<Rightarrow> string" where
  "title_case s = title_acc False s"

text \<open>\<^verbatim>\<open>' '.join(xs)\<close>.\<close>

fun join_space :: "string list \<Rightarrow> string" where
  "join_space [] = []"
| "join_space [x] = x"
| "join_space (x # y # ys) = x @ '' '' @ join_space (y # ys)"

text \<open>\<^verbatim>\<open>xs[:n]\<close> for an integer \<open>n\<close>: a negative \<open>n\<close> counts from the end.\<close>

definition py_take :: "int \<Rightarrow> 'a list \<Rightarrow> 'a list" where
  "py_take n xs = (if 0 \<le> n then take (nat n) xs else take (length xs - nat (- n)) xs)"

text \<open>\<^verbatim>\<open>xs[-n:]\<close> for a positive \<open>n\<close>: the last \<open>n\<close> elements.\<close>

definition py_last_n :: "nat \<Rightarrow> 'a list \<Rightarrow> 'a list" where
  "py_last_n n xs = drop (length xs - n) xs"

subsection \<open>Transcript segments and configuration\<close>

text \<open>A transcript segment \<^verbatim>\<open>{'start': .., 'end': .., 'text': ..}\<close>.\<close>

record segment =
  seg_start :: real
  seg_end :: real
  seg_text :: string

text \<open>The configuration values the analysis reads, each absent (\<open>None\<close>) or set.
  \<open>keywords_boost\<close> is \<^verbatim>\<open>analysis_config.get("keywords_boost", [])\<close> and
  \<open>emotion_weights\<close> is \<^verbatim>\<open>analysis_config.get("emotion_weights", {})\<close>.\<close>

record config =
  keywords_boost :: "string list"
  emotion_weights :: "string \<rightharpoonup> real"
  min_engagement_score :: "real option"
  clip_duration_min :: "real option"
  clip_duration_max :: "real option"
  hashtag_max_count :: "int option"
  hashtag_min_count :: "int option"

definition default_config :: config where
  "default_config = \<lparr> keywords_boost = [], emotion_weights = Map.empty,
     min_engagement_score = None, clip_duration_min = None, clip_duration_max = None,
     hashtag_max_count = None, hashtag_min_count = None \<rparr>"

subsection \<open>Segment scorer: \<^verbatim>\<open>ContentAnalyzer._score_segments\<close>\<close>

definition emotion_keywords :: "(string \<times> string list) list" where
  "emotion_keywords =
    [(''funny'', [''funny'', ''hilarious'', ''laugh'', ''lol'', ''comedy'', ''joke'', ''humor'',
        ''ridiculous'', ''absurd'', ''crazy'', ''weird'', ''bizarre'', ''silly'']),
     (''shocking'', [''shocking'', ''unbelievable'', ''incredible'', ''amazing'', ''wow'',
        ''surprised'', ''unexpected'', ''mind-blowing'', ''insane'', ''wtf'']),
     (''inspirational'', [''inspiring'', ''motivational'', ''success'', ''achievement'', ''dream'',
        ''goal'', ''overcome'', ''struggle'', ''victory'', ''triumph'', ''hope'']),
     (''educational'', [''learn'', ''tutorial'', ''how to'', ''explain'', ''science'', ''fact'',
        ''research'', ''study'', ''theory'', ''knowledge'', ''understand'']),
     (''controversial'', [''controversial'', ''debate'', ''argument'', ''opinion'', ''disagree'',
        ''wrong'', ''right'', ''politics'', ''religion'', ''sensitive''])]"

definition hook_patterns :: "string list" where
  "hook_patterns =
    [''you won't believe'', ''secret that'', ''nobody tells you'',
     ''shocking truth'', ''never knew'', ''mind blown'', ''this changes everything'',
     ''most people don't know'', ''hidden truth'', ''real reason why'']"

text \<open>\<^verbatim>\<open>re.search(pattern, text, re.IGNORECASE)\<close> for the patterns above, which hold
  letters, spaces and apostrophes only: a case-insensitive substring search.\<close>

definition re_search_ignorecase :: "string \<Rightarrow> string \<Rightarrow> bool" where
  "re_search_ignorecase pattern txt = py_in (lower pattern) (lower txt)"

text \<open>The loop over \<^verbatim>\<open>self.emotion_keywords.items()\<close>, threading \<open>score\<close> and
  \<open>emotions\<close>.\<close>

fun emotion_loop ::
  "(string \<rightharpoonup> real) \<Rightarrow> string \<Rightarrow> (string \<times> string list) list \<Rightarrow> real \<times> string list
     \<Rightarrow> real \<times> string list" where
  "emotion_loop w txt [] acc = acc"
| "emotion_loop w txt ((emotion, keywords) # rest) (score, emotions) =
     (let emotion_score = length (filter (\<lambda>keyword. py_in keyword txt) keywords)
      in if emotion_score > 0
         then emotion_loop w txt rest
                (score + real emotion_score * get_default 1 (w emotion), emotions @ [emotion])
         else emotion_loop w txt rest (score, emotions))"

text \<open>The score after emotion, hook and boost detection, before any scaling; \<open>txt\<close> is the
  lower-cased text of the segment.\<close>

definition raw_score :: "config \<Rightarrow> string \<Rightarrow> real \<times> string list" where
  "raw_score cfg txt =
     (let (score, emotions) = emotion_loop (emotion_weights cfg) txt emotion_keywords (0, []);
          hook_score = length (filter (\<lambda>pattern. re_search_ignorecase pattern txt) hook_patterns);
          score = score + real hook_score * 2;
          boost_score = length (filter (\<lambda>keyword. py_in (lower keyword) txt) (keywords_boost cfg));
          score = score + real boost_score * 1.5
      in (score, emotions))"

definition length_penalty :: "string \<Rightarrow> real \<Rightarrow> real" where
  "length_penalty txt score =
     (let text_length = length (split txt)
      in if text_length < 5 then score * 0.5
         else if text_length > 100 then score * 0.7
         else score)"

definition position_bonus :: "nat \<Rightarrow> nat \<Rightarrow> real \<Rightarrow> real" where
  "position_bonus i n score =
     (if real i < real n * 0.1 then score * 1.2
      else if real i > real n * 0.9 then score * 1.1
      else score)"

record scored_segment =
  segment_index :: nat
  ss_start_time :: real
  ss_end_time :: real
  ss_text :: string
  ss_score :: real
  ss_emotions :: "string list"
  ss_duration :: real

definition score_segment :: "config \<Rightarrow> nat \<Rightarrow> nat \<Rightarrow> segment \<Rightarrow> scored_segment" where
  "score_segment cfg n i seg =
     (let txt = lower (seg_text seg);
          (score, emotions) = raw_score cfg txt;
          score = length_penalty txt score;
          score = position_bonus i n score
      in \<lparr> segment_index = i, ss_start_time = seg_start seg, ss_end_time = seg_end seg,
           ss_text = seg_text seg, ss_score = score, ss_emotions = emotions,
           ss_duration = seg_end seg - seg_start seg \<rparr>)"

definition score_segments :: "config \<Rightarrow> segment list \<Rightarrow> scored_segment list" where
  "score_segments cfg segments =
     map (\<lambda>(i, seg). score_segment cfg (length segments) i seg) (enumerate 0 segments)"

subsection \<open>Transcript chunking: \<^verbatim>\<open>LLMAnalyzer._split_transcript\<close>\<close>

text \<open>A chunk \<^verbatim>\<open>{'text': .., 'segments': .., 'start_time': .., 'end_time': ..}\<close>.\<close>

record chunk =
  chunk_text :: string
  chunk_segments :: "segment list"
  chunk_start_time :: real
  chunk_end_time :: real

definition chunk_size :: nat where
  "chunk_size = 1000"

definition overlap :: nat where
  "overlap = 200"

definition empty_chunk :: chunk where
  "empty_chunk = \<lparr> chunk_text = [], chunk_segments = [], chunk_start_time = 0, chunk_end_time = 0 \<rparr>"

text \<open>The loop over the segments, threading \<open>chunks\<close> and \<open>current_chunk\<close>.\<close>

fun split_loop :: "chunk list \<Rightarrow> chunk \<Rightarrow> segment list \<Rightarrow> chunk list \<times> chunk" where
  "split_loop chunks current_chunk [] = (chunks, current_chunk)"
| "split_loop chunks current_chunk (segment # rest) =
     (let segment_text = seg_text segment
      in if length (chunk_text current_chunk @ segment_text) > chunk_size
            \<and> chunk_text current_chunk \<noteq> []
         then
           (let finished = current_chunk
                  \<lparr> chunk_end_time :=
                      (if chunk_segments current_chunk \<noteq> []
                       then seg_end (last (chunk_segments current_chunk)) else 0) \<rparr>;
                overlap_text =
                  (if length (chunk_text finished) > overlap
                   then py_last_n overlap (chunk_text finished) else chunk_text finished)
            in split_loop (chunks @ [finished])
                 \<lparr> chunk_text = overlap_text @ '' '' @ segment_text, chunk_segments = [segment],
                   chunk_start_time = seg_start segment, chunk_end_time = seg_end segment \<rparr>
                 rest)
         else
           (let started =
                  (if chunk_segments current_chunk = []
                   then current_chunk \<lparr> chunk_start_time := seg_start segment \<rparr>
                   else current_chunk)
            in split_loop chunks
                 (started \<lparr> chunk_text := chunk_text started @ '' '' @ segment_text,
                            chunk_segments := chunk_segments started @ [segment],
                            chunk_end_time := seg_end segment \<rparr>)
                 rest))"

text \<open>The parameter \<open>transcript\<close> (the full text) is not read by the source either.\<close>

definition split_transcript :: "string \<Rightarrow> segment list \<Rightarrow> chunk list" where
  "split_transcript transcript segments =
     (let (chunks, current_chunk) = split_loop [] empty_chunk segments
      in if chunk_text current_chunk \<noteq> [] then chunks @ [current_chunk] else chunks)"

subsection \<open>Highlights\<close>

text \<open>The value of the key \<^verbatim>\<open>'source'\<close>; the specification calls \<open>llm\<close> "semantic".\<close>

datatype source = rule_based | llm | combined

text \<open>A highlight dictionary. Every highlight the pipeline builds carries
  \<^verbatim>\<open>'start_time'\<close>, \<^verbatim>\<open>'end_time'\<close>, \<^verbatim>\<open>'text'\<close> and \<^verbatim>\<open>'confidence'\<close>, so the default of
  \<^verbatim>\<open>x.get('confidence', 0)\<close> is never taken; the other keys depend on where the
  highlight was built.\<close>

record highlight =
  start_time :: real
  end_time :: real
  h_text :: string
  confidence :: real
  h_score :: "real option"
  h_emotions :: "string list option"
  source :: "source option"
  h_title :: "string option"
  h_emotion :: "string option"
  viral_potential :: "string option"
  reason :: "string option"
  key_quotes :: "string list option"

subsection \<open>Ranker and filter: \<^verbatim>\<open>ContentAnalyzer._filter_highlights\<close>\<close>

definition max_highlights :: nat where
  "max_highlights = 5"

definition min_confidence :: real where
  "min_confidence = 0.3"

definition overlap_duration :: "highlight \<Rightarrow> highlight \<Rightarrow> real" where
  "overlap_duration highlight existing =
     (let overlap_start = max (start_time highlight) (start_time existing);
          overlap_end = min (end_time highlight) (end_time existing)
      in max 0 (overlap_end - overlap_start))"

text \<open>The ratio compared with 0.5: the division raises when the candidate has duration 0.\<close>

definition overlap_ratio :: "highlight \<Rightarrow> highlight \<Rightarrow> py_error + real" where
  "overlap_ratio highlight existing =
     (let highlight_duration = end_time highlight - start_time highlight
      in if highlight_duration = 0 then Inl ZeroDivisionError
         else Inr (overlap_duration highlight existing / highlight_duration))"

text \<open>The inner loop \<^verbatim>\<open>for existing in filtered\<close>, with its \<^verbatim>\<open>break\<close>.\<close>

fun overlap_found :: "highlight \<Rightarrow> highlight list \<Rightarrow> py_error + bool" where
  "overlap_found highlight [] = Inr False"
| "overlap_found highlight (existing # rest) =
     (case overlap_ratio highlight existing of
        Inl e \<Rightarrow> Inl e
      | Inr ratio \<Rightarrow> if ratio > 0.5 then Inr True else overlap_found highlight rest)"

fun filter_loop :: "highlight list \<Rightarrow> highlight list \<Rightarrow> py_error + highlight list" where
  "filter_loop filtered [] = Inr filtered"
| "filter_loop filtered (highlight # rest) =
     (case overlap_found highlight filtered of
        Inl e \<Rightarrow> Inl e
      | Inr found \<Rightarrow> filter_loop (if found then filtered else filtered @ [highlight]) rest)"

text \<open>\<^verbatim>\<open>highlights.sort(key=lambda x: x.get('confidence', 0), reverse=True)\<close>: a stable
  sort by descending confidence.\<close>

definition sort_by_confidence :: "highlight list \<Rightarrow> highlight list" where
  "sort_by_confidence highlights = sort_key (\<lambda>x. - confidence x) highlights"

definition filter_highlights :: "highlight list \<Rightarrow> py_error + highlight list" where
  "filter_highlights highlights =
     (case filter_loop [] (sort_by_confidence highlights) of
        Inl e \<Rightarrow> Inl e
      | Inr filtered \<Rightarrow>
          Inr (filter (\<lambda>h. confidence h \<ge> min_confidence) (take max_highlights filtered)))"

text \<open>The overlap ratio in the words of the specification: shared duration divided by the
  duration of the shorter of the two highlights.\<close>

definition spec_overlap_ratio :: "highlight \<Rightarrow> highlight \<Rightarrow> real" where
  "spec_overlap_ratio a b =
     overlap_duration a b / min (end_time a - start_time a) (end_time b - start_time b)"

text \<open>A highlight with the four mandatory keys only.\<close>

definition plain_highlight :: "real \<Rightarrow> real \<Rightarrow> real \<Rightarrow> highlight" where
  "plain_highlight s e c =
     \<lparr> start_time = s, end_time = e, h_text = [], confidence = c, h_score = None,
       h_emotions = None, source = None, h_title = None, h_emotion = None,
       viral_potential = None, reason = None, key_quotes = None \<rparr>"

text \<open>The condition under which the inner loop lets \<open>highlight\<close> pass \<open>existing\<close>.\<close>

definition compat :: "highlight \<Rightarrow> highlight \<Rightarrow> bool" where
  "compat existing highlight =
     (end_time highlight - start_time highlight \<noteq> 0
      \<and> overlap_duration highlight existing / (end_time highlight - start_time highlight) \<le> 0.5)"

subsection \<open>Merger: \<^verbatim>\<open>ContentAnalyzer._combine_analyses\<close>\<close>

text \<open>The three \<^verbatim>\<open>while\<close> loops that resolve the window of a rule-based candidate. Each
  threads the index it moves and \<open>total_duration\<close>.\<close>

function extend_forward :: "segment list \<Rightarrow> real \<Rightarrow> nat \<Rightarrow> nat \<Rightarrow> real \<Rightarrow> nat \<times> real" where
  "extend_forward original_segments clip_min start_idx end_idx total_duration =
     (if Suc end_idx < length original_segments \<and> total_duration < clip_min
      then extend_forward original_segments clip_min start_idx (Suc end_idx)
             (seg_end (original_segments ! Suc end_idx)
                - seg_start (original_segments ! start_idx))
      else (end_idx, total_duration))"
  by pat_completeness auto
termination
  by (relation "measure (\<lambda>(segs, m, s, e, t). length segs - e)") auto

function extend_backward :: "segment list \<Rightarrow> real \<Rightarrow> nat \<Rightarrow> nat \<Rightarrow> real \<Rightarrow> nat \<times> real" where
  "extend_backward original_segments clip_min start_idx end_idx total_duration =
     (if 0 < start_idx \<and> total_duration < clip_min
      then extend_backward original_segments clip_min (start_idx - 1) end_idx
             (seg_end (original_segments ! end_idx)
                - seg_start (original_segments ! (start_idx - 1)))
      else (start_idx, total_duration))"
  by pat_completeness auto
termination
  by (relation "measure (\<lambda>(segs, m, s, e, t). s)") auto

function trim_end :: "segment list \<Rightarrow> real \<Rightarrow> nat \<Rightarrow> nat \<Rightarrow> real \<Rightarrow> nat \<times> real" where
  "trim_end original_segments clip_max start_idx end_idx total_duration =
     (if total_duration > clip_max \<and> end_idx > start_idx
      then trim_end original_segments clip_max start_idx (end_idx - 1)
             (seg_end (original_segments ! (end_idx - 1))
                - seg_start (original_segments ! start_idx))
      else (end_idx, total_duration))"
  by pat_completeness auto
termination
  by (relation "measure (\<lambda>(segs, m, s, e, t). e)") auto

text \<open>The indices \<open>(start_idx, end_idx)\<close> after the three loops, for a scored segment with
  index \<open>idx\<close> and duration \<open>duration\<close>.\<close>

definition resolve_window :: "config \<Rightarrow> segment list \<Rightarrow> nat \<Rightarrow> real \<Rightarrow> nat \<times> nat" where
  "resolve_window cfg original_segments idx duration =
     (let clip_min_duration = get_default 25 (clip_duration_min cfg);
          clip_max_duration = get_default 65 (clip_duration_max cfg);
          (end_idx, total_duration) =
             extend_forward original_segments clip_min_duration idx idx duration;
          (start_idx, total_duration) =
             extend_backward original_segments clip_min_duration idx end_idx total_duration;
          (end_idx, total_duration) =
             trim_end original_segments clip_max_duration start_idx end_idx total_duration
      in (start_idx, end_idx))"

text \<open>The body of the first loop for one scored segment. An index outside
  \<open>original_segments\<close> raises \<^verbatim>\<open>IndexError\<close>: no loop can move it into range, and the
  window is read at \<open>start_idx\<close> and \<open>end_idx\<close>.\<close>

definition rule_based_highlight ::
  "config \<Rightarrow> segment list \<Rightarrow> scored_segment \<Rightarrow> py_error + highlight" where
  "rule_based_highlight cfg original_segments segment =
     (if segment_index segment \<ge> length original_segments then Inl IndexError
      else
        (let (start_idx, end_idx) =
               resolve_window cfg original_segments (segment_index segment) (ss_duration segment);
             combined_text =
               join_space (map (\<lambda>i. seg_text (original_segments ! i)) [start_idx ..< Suc end_idx])
         in Inr \<lparr> start_time = seg_start (original_segments ! start_idx),
                  end_time = seg_end (original_segments ! end_idx),
                  h_text = combined_text,
                  confidence = min (ss_score segment / 3) 1,
                  h_score = Some (ss_score segment),
                  h_emotions = Some (ss_emotions segment),
                  source = Some rule_based,
                  h_title = None, h_emotion = None, viral_potential = None,
                  reason = None, key_quotes = None \<rparr>))"

text \<open>\<^verbatim>\<open>for segment in scored_segments\<close>, threading the list \<^verbatim>\<open>combined\<close>.\<close>

fun rule_based_loop ::
  "config \<Rightarrow> segment list \<Rightarrow> highlight list \<Rightarrow> scored_segment list
     \<Rightarrow> py_error + highlight list" where
  "rule_based_loop cfg original_segments combined_list [] = Inr combined_list"
| "rule_based_loop cfg original_segments combined_list (segment # rest) =
     (if ss_score segment \<ge> get_default 0.6 (min_engagement_score cfg)
      then (case rule_based_highlight cfg original_segments segment of
              Inl e \<Rightarrow> Inl e
            | Inr h \<Rightarrow> rule_based_loop cfg original_segments (combined_list @ [h]) rest)
      else rule_based_loop cfg original_segments combined_list rest)"

text \<open>The test that treats an LLM highlight and an existing one as the same moment.\<close>

definition same_moment :: "highlight \<Rightarrow> highlight \<Rightarrow> bool" where
  "same_moment llm_highlight existing =
     (\<bar>start_time llm_highlight - start_time existing\<bar> < 10
      \<or> \<bar>end_time llm_highlight - end_time existing\<bar> < 10)"

text \<open>\<^verbatim>\<open>existing.update(llm_highlight)\<close>: every key of \<open>llm_highlight\<close> overwrites, the
  other keys of \<open>existing\<close> stay.\<close>

definition keep_or :: "'a option \<Rightarrow> 'a option \<Rightarrow> 'a option" where
  "keep_or old new = (case new of None \<Rightarrow> old | Some v \<Rightarrow> Some v)"

definition dict_update :: "highlight \<Rightarrow> highlight \<Rightarrow> highlight" where
  "dict_update existing llm_highlight =
     \<lparr> start_time = start_time llm_highlight,
       end_time = end_time llm_highlight,
       h_text = h_text llm_highlight,
       confidence = confidence llm_highlight,
       h_score = keep_or (h_score existing) (h_score llm_highlight),
       h_emotions = keep_or (h_emotions existing) (h_emotions llm_highlight),
       source = keep_or (source existing) (source llm_highlight),
       h_title = keep_or (h_title existing) (h_title llm_highlight),
       h_emotion = keep_or (h_emotion existing) (h_emotion llm_highlight),
       viral_potential = keep_or (viral_potential existing) (viral_potential llm_highlight),
       reason = keep_or (reason existing) (reason llm_highlight),
       key_quotes = keep_or (key_quotes existing) (key_quotes llm_highlight) \<rparr>"

text \<open>\<^verbatim>\<open>for existing in combined\<close>, with its \<^verbatim>\<open>break\<close>: \<open>None\<close> when no entry matches
  (\<open>overlap_found\<close> stays false), otherwise the list after the merge with the first
  matching entry.\<close>

fun merge_existing :: "highlight \<Rightarrow> highlight list \<Rightarrow> highlight list option" where
  "merge_existing llm_highlight [] = None"
| "merge_existing llm_highlight (existing # rest) =
     (if same_moment llm_highlight existing
      then Some ((if confidence llm_highlight > confidence existing
                  then (dict_update existing llm_highlight) \<lparr> source := Some combined \<rparr>
                  else existing) # rest)
      else map_option ((#) existing) (merge_existing llm_highlight rest))"

definition add_llm_highlight :: "highlight list \<Rightarrow> highlight \<Rightarrow> highlight list" where
  "add_llm_highlight combined_list llm_highlight =
     (case merge_existing llm_highlight combined_list of
        Some merged \<Rightarrow> merged
      | None \<Rightarrow> combined_list @ [llm_highlight \<lparr> source := Some llm \<rparr>])"

definition combine_analyses ::
  "config \<Rightarrow> scored_segment list \<Rightarrow> highlight list \<Rightarrow> segment list
     \<Rightarrow> py_error + highlight list" where
  "combine_analyses cfg scored_segments llm_highlights original_segments =
     (case rule_based_loop cfg original_segments [] scored_segments of
        Inl e \<Rightarrow> Inl e
      | Inr combined_list \<Rightarrow> Inr (foldl add_llm_highlight combined_list llm_highlights))"

text \<open>The duration \<^verbatim>\<open>original_segments[e]['end'] - original_segments[s]['start']\<close> of the
  window from segment \<open>s\<close> to segment \<open>e\<close>.\<close>

definition window_duration :: "segment list \<Rightarrow> nat \<Rightarrow> nat \<Rightarrow> real" where
  "window_duration segs s e = seg_end (segs ! e) - seg_start (segs ! s)"

subsection \<open>LLM analyzer: \<^verbatim>\<open>LLMAnalyzer\<close>\<close>

text \<open>The video metadata dictionary, of which \<^verbatim>\<open>'title'\<close> and \<^verbatim>\<open>'description'\<close> are read.\<close>

record video_metadata =
  vm_title :: "string option"
  vm_description :: "string option"

text \<open>One entry of the \<^verbatim>\<open>"highlights"\<close> array of the model's JSON answer; every key is
  read with \<^verbatim>\<open>.get\<close> and may be absent.\<close>

record llm_item =
  li_title :: "string option"
  li_reason :: "string option"
  li_emotion :: "string option"
  li_engagement_score :: "real option"
  li_key_quotes :: "string list option"
  li_viral_potential :: "string option"

text \<open>The two external parts of the analyzer.
  \<^item> \<open>llm_model\<close>: \<^verbatim>\<open>self.model.generate\<close> applied to the prompt that
    \<^verbatim>\<open>_create_analysis_prompt\<close> builds from the chunk text and the video metadata; \<open>Inl\<close>
    when the call raises.
  \<^item> \<open>json_decoder\<close>: \<^verbatim>\<open>json.loads\<close> followed by \<^verbatim>\<open>data.get('highlights', [])\<close>; \<open>None\<close>
    when the text is not JSON or the value does not have the shape the loop reads, which
    make \<^verbatim>\<open>_parse_llm_response\<close> raise inside its \<^verbatim>\<open>try\<close>.\<close>

type_synonym llm_model = "string \<Rightarrow> video_metadata \<Rightarrow> py_error + string"

type_synonym json_decoder = "string \<Rightarrow> llm_item list option"

text \<open>\<^verbatim>\<open>re.search(r'\{.*\}', response, re.DOTALL)\<close>: from the first opening brace to the
  last closing brace after it.\<close>

definition json_match :: "string \<Rightarrow> string option" where
  "json_match response =
     (let from_brace = dropWhile (\<lambda>c. c \<noteq> CHR 0x7B) response;
          matched = rev (dropWhile (\<lambda>c. c \<noteq> CHR 0x7D) (rev from_brace))
      in if matched = [] then None else Some matched)"

text \<open>\<^verbatim>\<open>_find_matching_segments\<close>. The inner loop over the segments for one quote,
  threading \<open>matching_segments\<close>.\<close>

fun match_quote :: "string \<Rightarrow> segment list \<Rightarrow> segment list \<Rightarrow> segment list" where
  "match_quote quote_lower [] matching_segments = matching_segments"
| "match_quote quote_lower (segment # rest) matching_segments =
     (let segment_text = lower (seg_text segment)
      in if (py_in quote_lower segment_text
             \<or> (\<exists>word \<in> set (split quote_lower). py_in word segment_text))
            \<and> segment \<notin> set matching_segments
         then match_quote quote_lower rest (matching_segments @ [segment])
         else match_quote quote_lower rest matching_segments)"

text \<open>\<^verbatim>\<open>len(quote_words & segment_words)\<close> for the two word sets.\<close>

definition word_overlap :: "string list \<Rightarrow> string list \<Rightarrow> nat" where
  "word_overlap quote_words segment_words =
     length (remdups (filter (\<lambda>w. w \<in> set segment_words) quote_words))"

definition find_matching_segments :: "string list \<Rightarrow> segment list \<Rightarrow> segment list" where
  "find_matching_segments quotes segments =
     (if quotes = [] then (if length segments \<ge> 3 then take 3 segments else segments)
      else
        (let matching_segments =
               foldl (\<lambda>matching quote. match_quote (lower quote) segments matching) [] quotes;
             matching_segments = sort_key seg_start matching_segments
         in if matching_segments = []
            then
              (let quote_words = split (lower (join_space quotes));
                   segment_scores =
                     map (\<lambda>segment.
                            (segment, word_overlap quote_words (split (lower (seg_text segment)))))
                       segments;
                   segment_scores = sort_key (\<lambda>x. - int (snd x)) segment_scores
               in map fst (filter (\<lambda>x. snd x > 0) (take 3 segment_scores)))
            else matching_segments))"

text \<open>The step of \<^verbatim>\<open>_parse_llm_response\<close> commented "Ensure clip duration is within
  limits": the window of a semantic candidate, from the span of its matching segments.\<close>

definition ensure_clip_duration :: "config \<Rightarrow> chunk \<Rightarrow> real \<Rightarrow> real \<Rightarrow> real \<times> real" where
  "ensure_clip_duration cfg chunk start_time0 end_time0 =
     (let duration = end_time0 - start_time0;
          min_duration = get_default 25 (clip_duration_min cfg);
          max_duration = get_default 65 (clip_duration_max cfg)
      in if duration < min_duration
         then (let needed_time = min_duration - duration
               in (max (chunk_start_time chunk) (start_time0 - needed_time / 2),
                   min (chunk_end_time chunk) (end_time0 + needed_time / 2)))
         else if duration > max_duration
         then (let excess_time = duration - max_duration
               in (start_time0 + excess_time / 2, end_time0 - excess_time / 2))
         else (start_time0, end_time0))"

text \<open>The body of the loop over the decoded highlights: \<open>None\<close> when no segment matches.\<close>

definition convert_highlight :: "config \<Rightarrow> chunk \<Rightarrow> llm_item \<Rightarrow> highlight option" where
  "convert_highlight cfg chunk item =
     (let matching_segments =
            find_matching_segments (get_default [] (li_key_quotes item)) (chunk_segments chunk)
      in if matching_segments = [] then None
         else
           (let (start_time1, end_time1) =
                  ensure_clip_duration cfg chunk
                    (seg_start (hd matching_segments)) (seg_end (last matching_segments));
                highlight_text = join_space (map seg_text matching_segments)
            in Some \<lparr> start_time = start_time1, end_time = end_time1,
                      h_text = highlight_text,
                      confidence = get_default 0.5 (li_engagement_score item),
                      h_score = None, h_emotions = None, source = None,
                      h_title = Some (get_default ''Viral Moment'' (li_title item)),
                      h_emotion = Some (get_default ''neutral'' (li_emotion item)),
                      viral_potential = Some (get_default ''medium'' (li_viral_potential item)),
                      reason = Some (get_default [] (li_reason item)),
                      key_quotes = Some (get_default [] (li_key_quotes item)) \<rparr>))"

text \<open>\<^verbatim>\<open>_parse_llm_response\<close>: no JSON object in the response, or a failure while decoding
  it, gives the empty list.\<close>

definition parse_llm_response ::
  "json_decoder \<Rightarrow> config \<Rightarrow> string \<Rightarrow> chunk \<Rightarrow> highlight list" where
  "parse_llm_response loads cfg response chunk =
     (case json_match response of
        None \<Rightarrow> []
      | Some json_text \<Rightarrow>
          (case loads json_text of
             None \<Rightarrow> []
           | Some highlights \<Rightarrow> List.map_filter (convert_highlight cfg chunk) highlights))"

text \<open>\<^verbatim>\<open>_analyze_chunk\<close>: any exception gives the empty list.\<close>

definition analyze_chunk ::
  "llm_model \<Rightarrow> json_decoder \<Rightarrow> config \<Rightarrow> video_metadata \<Rightarrow> chunk \<Rightarrow> highlight list" where
  "analyze_chunk model loads cfg metadata chunk =
     (case model (chunk_text chunk) metadata of
        Inl e \<Rightarrow> []
      | Inr response \<Rightarrow> parse_llm_response loads cfg response chunk)"

text \<open>\<^verbatim>\<open>_rank_highlights\<close>.\<close>

definition emotion_boost :: "string \<Rightarrow> real" where
  "emotion_boost e =
     get_default 1
       (map_of [(''funny'', 1.2), (''shocking'', 1.1), (''inspirational'', 1.0),
                (''controversial'', 1.1), (''educational'', 0.9)] e)"

definition rank_one :: "highlight \<Rightarrow> highlight" where
  "rank_one highlight =
     (let score = confidence highlight;
          potential = get_default ''medium'' (viral_potential highlight);
          score = (if potential = ''high'' then score * 1.3
                   else if potential = ''low'' then score * 0.8 else score);
          score = score * emotion_boost (get_default ''neutral'' (h_emotion highlight))
      in highlight \<lparr> confidence := min score 1 \<rparr>)"

definition rank_highlights :: "highlight list \<Rightarrow> highlight list" where
  "rank_highlights highlights = take 5 (sort_by_confidence (map rank_one highlights))"

text \<open>\<^verbatim>\<open>_fallback_analysis\<close>.\<close>

definition fallback_emotion_keywords :: "(string \<times> string list) list" where
  "fallback_emotion_keywords =
    [(''shocking'', [''unbelievable'', ''incredible'', ''amazing'', ''wow'', ''surprised'']),
     (''funny'', [''funny'', ''hilarious'', ''laugh'', ''joke'', ''comedy'']),
     (''inspirational'', [''inspiring'', ''motivational'', ''success'', ''achievement''])]"

fun fallback_emotion_loop ::
  "string \<Rightarrow> (string \<times> string list) list \<Rightarrow> real \<times> string list \<Rightarrow> real \<times> string list" where
  "fallback_emotion_loop text_lower [] acc = acc"
| "fallback_emotion_loop text_lower ((emotion, keywords) # rest) (score, emotions) =
     (if \<exists>keyword \<in> set keywords. py_in keyword text_lower
      then fallback_emotion_loop text_lower rest (score + 0.3, emotions @ [emotion])
      else fallback_emotion_loop text_lower rest (score, emotions))"

definition fallback_score :: "segment \<Rightarrow> real \<times> string list" where
  "fallback_score segment =
     (let text_lower = lower (seg_text segment);
          (score, emotions) = fallback_emotion_loop text_lower fallback_emotion_keywords (0, []);
          score = (if py_in ''?'' (seg_text segment) then score + 0.2 else score);
          score = (if \<exists>pronoun \<in> set [''i '', ''my '', ''me '']. py_in pronoun text_lower
                   then score + 0.1 else score);
          score = (if \<exists>sup \<in> set [''best'', ''worst'', ''biggest'', ''smallest'', ''most'', ''least''].
                        py_in sup text_lower
                   then score + 0.2 else score)
      in (score, emotions))"

definition fallback_highlight :: "segment list \<Rightarrow> nat \<Rightarrow> real \<Rightarrow> string list \<Rightarrow> highlight" where
  "fallback_highlight segments i score emotions =
     (let start_idx = i - 1;
          end_idx = min (length segments - 1) (i + 2)
      in \<lparr> start_time = seg_start (segments ! start_idx),
           end_time = seg_end (segments ! end_idx),
           h_text = join_space (map (\<lambda>j. seg_text (segments ! j)) [start_idx ..< Suc end_idx]),
           confidence = score,
           h_score = None, h_emotions = Some emotions, source = None, h_title = None,
           h_emotion = Some (if emotions \<noteq> [] then hd emotions else ''neutral''),
           viral_potential = None, reason = None, key_quotes = None \<rparr>)"

definition fallback_analysis :: "string \<Rightarrow> segment list \<Rightarrow> highlight list" where
  "fallback_analysis full_transcript segments =
     take 3
       (List.map_filter
          (\<lambda>(i, segment).
             (let (score, emotions) = fallback_score segment
              in if score \<ge> 0.4 then Some (fallback_highlight segments i score emotions)
                 else None))
          (enumerate 0 segments))"

text \<open>\<^verbatim>\<open>analyze_content\<close>. \<open>model\<close> is \<^verbatim>\<open>self.model\<close>, \<open>None\<close> when no model was loaded. The
  calls inside the \<^verbatim>\<open>try\<close> catch their own exceptions, so its handler is not reached.\<close>

definition analyze_content ::
  "llm_model option \<Rightarrow> json_decoder \<Rightarrow> config \<Rightarrow> string \<Rightarrow> segment list \<Rightarrow> video_metadata
     \<Rightarrow> highlight list" where
  "analyze_content model loads cfg full_transcript segments metadata =
     (case model of
        None \<Rightarrow> fallback_analysis full_transcript segments
      | Some generate \<Rightarrow>
          (let chunks = split_transcript full_transcript segments;
               highlights = concat (map (analyze_chunk generate loads cfg metadata) chunks)
           in rank_highlights highlights))"

subsection \<open>Enricher: \<^verbatim>\<open>ContentAnalyzer._enrich_highlights\<close>\<close>

text \<open>\<^verbatim>\<open>_generate_title\<close>. \<open>rnd\<close> is the draw of \<^verbatim>\<open>random.choice\<close>.\<close>

definition title_templates :: "string list \<Rightarrow> string list" where
  "title_templates emotions =
     (if ''funny'' \<in> set emotions
      then [''This Will Make You Laugh'', ''Hilarious Moment'', ''Comedy Gold'',
            ''You Won't Stop Laughing'']
      else if ''shocking'' \<in> set emotions
      then [''You Won't Believe This'', ''Shocking Truth Revealed'', ''Mind-Blowing Moment'',
            ''This Changes Everything'']
      else if ''inspirational'' \<in> set emotions
      then [''This Will Inspire You'', ''Motivational Moment'', ''Life-Changing Advice'',
            ''Inspiring Truth'']
      else [''Viral Moment'', ''Must-See Clip'', ''Trending Now'', ''Watch This''])"

definition generate_title :: "nat \<Rightarrow> config \<Rightarrow> string \<Rightarrow> string list \<Rightarrow> string" where
  "generate_title rnd cfg txt emotions =
     (let templates = title_templates emotions
      in case find (\<lambda>keyword. py_in (lower keyword) (lower txt)) (keywords_boost cfg) of
           Some keyword \<Rightarrow> ''The '' @ title_case keyword @ '' Secret''
         | None \<Rightarrow>
             (let question_start = length (takeWhile (\<lambda>c. c \<noteq> CHR ''?'') txt);
                  question = strip (take (question_start + 1) txt)
              in if py_in ''?'' txt \<and> question_start > 0 \<and> length (split question) \<le> 8
                 then title_case question
                 else templates ! (rnd mod length templates)))"

text \<open>\<^verbatim>\<open>_generate_description\<close>.\<close>

definition generate_description :: "string \<Rightarrow> video_metadata \<Rightarrow> string" where
  "generate_description txt metadata =
     (let description = strip txt;
          description = (if length description > 150 then take 147 description @ ''...''
                         else description)
      in case vm_title metadata of
           None \<Rightarrow> description
         | Some t \<Rightarrow> if t = [] then description
                     else description @ [CHR 0x0A, CHR 0x0A] @ ''From: '' @ t)"

text \<open>\<^verbatim>\<open>_generate_hashtags\<close>.\<close>

definition base_tags :: "string list" where
  "base_tags = [''#viral'', ''#trending'', ''#fyp'']"

definition emotion_tags :: "(string \<times> string list) list" where
  "emotion_tags =
    [(''funny'', [''#comedy'', ''#humor'', ''#laugh'']),
     (''shocking'', [''#mindblown'', ''#incredible'', ''#wow'']),
     (''inspirational'', [''#motivation'', ''#inspiration'', ''#success'']),
     (''educational'', [''#learning'', ''#facts'', ''#knowledge'']),
     (''controversial'', [''#debate'', ''#opinion'', ''#discussion''])]"

definition topic_keywords :: "(string \<times> string) list" where
  "topic_keywords =
    [(''business'', ''#business''), (''money'', ''#money''), (''success'', ''#success''),
     (''health'', ''#health''), (''fitness'', ''#fitness''), (''food'', ''#food''),
     (''technology'', ''#tech''), (''ai'', ''#ai''), (''science'', ''#science''),
     (''travel'', ''#travel''), (''lifestyle'', ''#lifestyle''), (''tips'', ''#tips'')]"

definition generic_tags :: "string list" where
  "generic_tags = [''#content'', ''#video'', ''#shorts'', ''#reels'', ''#tiktok'']"

text \<open>\<^verbatim>\<open>list(dict.fromkeys(xs))\<close>: the first occurrence of every element, in order. \<open>seen\<close>
  holds the elements already kept.\<close>

fun fromkeys :: "'a list \<Rightarrow> 'a list \<Rightarrow> 'a list" where
  "fromkeys seen [] = []"
| "fromkeys seen (x # xs) =
     (if x \<in> set seen then fromkeys seen xs else x # fromkeys (x # seen) xs)"

text \<open>The padding loop \<^verbatim>\<open>for tag in generic_tags\<close>.\<close>

fun pad_generic :: "int \<Rightarrow> string list \<Rightarrow> string list \<Rightarrow> string list" where
  "pad_generic min_count [] hashtags = hashtags"
| "pad_generic min_count (tag # rest) hashtags =
     (if tag \<notin> set hashtags \<and> int (length hashtags) < min_count
      then pad_generic min_count rest (hashtags @ [tag])
      else pad_generic min_count rest hashtags)"

text \<open>The list \<open>hashtags\<close> before duplicates are removed.\<close>

definition collected_tags :: "string \<Rightarrow> string list \<Rightarrow> string list" where
  "collected_tags txt emotions =
     base_tags
     @ concat (map (\<lambda>emotion. case map_of emotion_tags emotion of None \<Rightarrow> [] | Some tags \<Rightarrow> tags)
                 emotions)
     @ map snd (filter (\<lambda>(keyword, tag). py_in keyword (lower txt)) topic_keywords)"

definition generate_hashtags :: "config \<Rightarrow> string \<Rightarrow> string list \<Rightarrow> string list" where
  "generate_hashtags cfg txt emotions =
     (let hashtags = fromkeys [] (collected_tags txt emotions);
          max_count = get_default 10 (hashtag_max_count cfg);
          min_count = get_default 5 (hashtag_min_count cfg)
      in if int (length hashtags) > max_count then py_take max_count hashtags
         else if int (length hashtags) < min_count then pad_generic min_count generic_tags hashtags
         else hashtags)"

text \<open>\<^verbatim>\<open>_get_primary_emotion\<close>.\<close>

definition emotion_priority :: "string list" where
  "emotion_priority = [''funny'', ''shocking'', ''inspirational'', ''controversial'', ''educational'']"

definition get_primary_emotion :: "string list \<Rightarrow> string" where
  "get_primary_emotion emotions =
     (if emotions = [] then ''neutral''
      else case find (\<lambda>emotion. emotion \<in> set emotions) emotion_priority of
             Some emotion \<Rightarrow> emotion
           | None \<Rightarrow> hd emotions)"

text \<open>An enriched highlight: \<^verbatim>\<open>{**highlight, 'title': .., 'description': .., 'hashtags': ..,
  'emotion': .., 'engagement_score': .., 'clip_number': ..}\<close>.\<close>

record enriched = highlight +
  description :: string
  hashtags :: "string list"
  engagement_score :: real
  clip_number :: nat

text \<open>The body of the loop of \<^verbatim>\<open>_enrich_highlights\<close>. On the dictionaries of the pipeline none
  of the four generators raises, so the \<^verbatim>\<open>except\<close> branch is not modelled. \<open>rnd i\<close> is
  the draw of \<^verbatim>\<open>random.choice\<close> for the highlight of index \<open>i\<close>.\<close>

definition enrich_one :: "(nat \<Rightarrow> nat) \<Rightarrow> config \<Rightarrow> video_metadata \<Rightarrow> nat \<Rightarrow> highlight \<Rightarrow> enriched" where
  "enrich_one rnd cfg metadata i highlight =
     (let emotions = get_default [] (h_emotions highlight);
          new_title = generate_title (rnd i) cfg (h_text highlight) emotions;
          new_description = generate_description (h_text highlight) metadata;
          new_hashtags = generate_hashtags cfg (h_text highlight) emotions;
          primary_emotion = get_primary_emotion emotions
      in highlight.extend
           (highlight \<lparr> h_title := Some new_title, h_emotion := Some primary_emotion \<rparr>)
           (enriched.fields new_description new_hashtags (confidence highlight) (i + 1)))"

definition enrich_highlights ::
  "(nat \<Rightarrow> nat) \<Rightarrow> config \<Rightarrow> highlight list \<Rightarrow> video_metadata \<Rightarrow> enriched list" where
  "enrich_highlights rnd cfg highlights metadata =
     map (\<lambda>(i, highlight). enrich_one rnd cfg metadata i highlight) (enumerate 0 highlights)"

subsection \<open>The pipeline: \<^verbatim>\<open>ContentAnalyzer.find_highlights\<close>\<close>

text \<open>The transcript dictionary: \<^verbatim>\<open>'segments'\<close> is read with \<^verbatim>\<open>.get('segments', [])\<close>,
  \<^verbatim>\<open>'text'\<close> with \<^verbatim>\<open>transcript['text']\<close>, which raises \<^verbatim>\<open>KeyError\<close> when absent.\<close>

record transcript =
  t_text :: "string option"
  t_segments :: "segment list option"

text \<open>The body of the \<^verbatim>\<open>try\<close> block.\<close>

definition find_highlights_body ::
  "llm_model option \<Rightarrow> json_decoder \<Rightarrow> (nat \<Rightarrow> nat) \<Rightarrow> config \<Rightarrow> transcript \<Rightarrow> video_metadata
     \<Rightarrow> py_error + enriched list" where
  "find_highlights_body model loads rnd cfg transcript metadata =
     (let segments = get_default [] (t_segments transcript)
      in if segments = [] then Inr []
         else
           (let scored_segments = score_segments cfg segments
            in case t_text transcript of
                 None \<Rightarrow> Inl KeyError
               | Some full_text \<Rightarrow>
                   (let llm_highlights =
                          analyze_content model loads cfg full_text segments metadata
                    in case combine_analyses cfg scored_segments llm_highlights segments of
                         Inl e \<Rightarrow> Inl e
                       | Inr combined_highlights \<Rightarrow>
                           (case filter_highlights combined_highlights of
                              Inl e \<Rightarrow> Inl e
                            | Inr filtered_highlights \<Rightarrow>
                                Inr (enrich_highlights rnd cfg filtered_highlights metadata)))))"

text \<open>\<^verbatim>\<open>find_highlights\<close>: the handler \<^verbatim>\<open>except Exception\<close> turns every exception of the body
  into the empty list.\<close>

definition find_highlights ::
  "llm_model option \<Rightarrow> json_decoder \<Rightarrow> (nat \<Rightarrow> nat) \<Rightarrow> config \<Rightarrow> transcript \<Rightarrow> video_metadata
     \<Rightarrow> py_error + enriched list" where
  "find_highlights model loads rnd cfg transcript metadata =
     (case find_highlights_body model loads rnd cfg transcript metadata of
        Inl e \<Rightarrow> Inr []
      | Inr final_highlights \<Rightarrow> Inr final_highlights)"


definition intro_segments :: "segment list" where
  "intro_segments = [\<lparr>seg_start = 0, seg_end = 5, seg_text = ''Intro''\<rparr>]"

definition money_config :: config where
  "money_config = default_config\<lparr>keywords_boost := [''Money'']\<rparr>"

definition short_then_long :: "highlight list" where
  "short_then_long = [plain_highlight 0 10 0.9, plain_highlight 0 100 0.8]"

definition two_apart :: "highlight list" where
  "two_apart = [plain_highlight 0 10 0.9, plain_highlight 8 30 0.8]"

definition four_candidates :: "highlight list" where
  "four_candidates = [plain_highlight 0 100 0.8, plain_highlight 0 20 0.9,
     plain_highlight 5 9 0.5, plain_highlight 50 60 0.2]"

definition four_filtered :: "highlight list" where
  "four_filtered = [plain_highlight 0 20 0.9, plain_highlight 0 100 0.8]"

text \<open>The scenario of the specification: three segments, the second one with hook phrases.\<close>

definition scenario_segments :: "segment list" where
  "scenario_segments =
     [\<lparr>seg_start = 0, seg_end = 5, seg_text = ''intro''\<rparr>,
      \<lparr>seg_start = 5, seg_end = 40,
       seg_text = ''you won't believe this secret nobody tells you''\<rparr>,
      \<lparr>seg_start = 40, seg_end = 45, seg_text = ''outro''\<rparr>]"

definition semantic_12_42 :: highlight where
  "semantic_12_42 = plain_highlight 12 42 0.8"

definition semantic_200_230 :: highlight where
  "semantic_200_230 = plain_highlight 200 230 0.8"

text \<open>One segment of 100 seconds with a hook phrase, and its rule-based highlight.\<close>

definition long_segment :: "segment list" where
  "long_segment = [\<lparr>seg_start = 0, seg_end = 100, seg_text = ''you won't believe this''\<rparr>]"

text \<open>A chunk of two segments, 5 and 95 seconds long, and a decoded LLM item whose quote
  matches the first segment only.\<close>

definition funny_segments :: "segment list" where
  "funny_segments =
     [\<lparr>seg_start = 0, seg_end = 5, seg_text = ''This is funny and amazing?''\<rparr>,
      \<lparr>seg_start = 5, seg_end = 100, seg_text = ''Plain words here''\<rparr>]"

definition funny_chunk :: chunk where
  "funny_chunk = \<lparr> chunk_text = '' This is funny and amazing? Plain words here'',
     chunk_segments = funny_segments, chunk_start_time = 0, chunk_end_time = 100 \<rparr>"

definition funny_item :: llm_item where
  "funny_item = \<lparr> li_title = None, li_reason = None, li_emotion = None,
     li_engagement_score = None, li_key_quotes = Some [''funny''], li_viral_potential = None \<rparr>"

definition funny_decoder :: json_decoder where
  "funny_decoder json_text = Some [funny_item]"

definition no_metadata :: video_metadata where
  "no_metadata = \<lparr> vm_title = None, vm_description = None \<rparr>"

definition long_highlight :: highlight where
  "long_highlight =
     \<lparr> start_time = 0, end_time = 100, h_text = ''you won't believe this'',
       confidence = 0.4, h_score = Some 1.2, h_emotions = Some [], source = Some rule_based,
       h_title = None, h_emotion = None, viral_potential = None, reason = None,
       key_quotes = None \<rparr>"

definition funny_highlight :: highlight where
  "funny_highlight =
     \<lparr> start_time = 0, end_time = 15, h_text = ''This is funny and amazing?'',
       confidence = 0.5, h_score = None, h_emotions = None, source = None,
       h_title = Some ''Viral Moment'', h_emotion = Some ''neutral'',
       viral_potential = Some ''medium'', reason = Some [], key_quotes = Some [''funny''] \<rparr>"

text \<open>A model whose answer holds no JSON object, and a decoder that always fails.\<close>

definition garbage_model :: llm_model where
  "garbage_model chunk_txt metadata = Inr ''I cannot answer that.''"

definition failing_decoder :: json_decoder where
  "failing_decoder json_text = None"

definition funny_fallback :: highlight where
  "funny_fallback =
     \<lparr> start_time = 0, end_time = 100,
       h_text = ''This is funny and amazing? Plain words here'',
       confidence = 0.8, h_score = None, h_emotions = Some [''shocking'', ''funny''],
       source = None, h_title = None, h_emotion = Some ''shocking'',
       viral_potential = None, reason = None, key_quotes = None \<rparr>"



text \<open>Transcripts for the pipeline: one without segments, one without the key
  \<^verbatim>\<open>'text'\<close>, and one whose second segment has length 0, under a configuration with
  minimum clip duration 0.\<close>

definition empty_transcript :: transcript where
  "empty_transcript = \<lparr> t_text = Some [], t_segments = Some [] \<rparr>"

definition textless_transcript :: transcript where
  "textless_transcript = \<lparr> t_text = None, t_segments = Some scenario_segments \<rparr>"

definition zero_length_transcript :: transcript where
  "zero_length_transcript =
     \<lparr> t_text = Some ''what a hilarious funny joke today well'',
       t_segments = Some
         [\<lparr>seg_start = 0, seg_end = 30, seg_text = ''what a hilarious funny joke today''\<rparr>,
          \<lparr>seg_start = 30, seg_end = 30, seg_text = ''well that was funny right there''\<rparr>] \<rparr>"

definition zero_min_config :: config where
  "zero_min_config = default_config \<lparr> clip_duration_min := Some 0 \<rparr>"

definition no_random :: "nat \<Rightarrow> nat" where
  "no_random i = 0"

definition scenario_highlight :: highlight where
  "scenario_highlight =
     \<lparr> start_time = 5, end_time = 40,
       h_text = ''you won't believe this secret nobody tells you'',
       confidence = 1, h_score = Some 4, h_emotions = Some [], source = Some rule_based,
       h_title = None, h_emotion = None, viral_potential = None, reason = None,
       key_quotes = None \<rparr>"

text \<open>The text that the chunking loop accumulates from a list of segments, and the overlap
  that it carries from the text of a finished chunk into the next one.\<close>

definition segments_text :: "segment list \<Rightarrow> string" where
  "segments_text segs = concat (map (\<lambda>segment. '' '' @ seg_text segment) segs)"

definition carried_overlap :: "string \<Rightarrow> string" where
  "carried_overlap t = (if length t > overlap then py_last_n overlap t else t)"

text \<open>Every chunk text is a carried prefix followed by the text of the chunk's own segments;
  the prefix of the first chunk is \<open>pre\<close>, that of a later chunk is the overlap of the
  chunk before it.\<close>

fun texts_chained :: "string \<Rightarrow> chunk list \<Rightarrow> bool" where
  "texts_chained pre [] = True"
| "texts_chained pre (c # cs) =
     (chunk_text c = pre @ segments_text (chunk_segments c)
      \<and> texts_chained (carried_overlap (chunk_text c)) cs)"

text \<open>Two segments of 600 characters each.\<close>

definition two_long_segments :: "segment list" where
  "two_long_segments =
     [\<lparr>seg_start = 0, seg_end = 30, seg_text = replicate 600 CHR ''a''\<rparr>,
      \<lparr>seg_start = 30, seg_end = 60, seg_text = replicate 600 CHR ''b''\<rparr>]"

text \<open>A scored segment of score 1.5 over one segment \<open>[10, 40]\<close>: the rule-based candidate
  of the specification's merge scenario.\<close>

definition segment_10_40 :: "segment list" where
  "segment_10_40 = [\<lparr>seg_start = 10, seg_end = 40, seg_text = ''a secret''\<rparr>]"

definition scored_10_40 :: "scored_segment list" where
  "scored_10_40 =
     [\<lparr> segment_index = 0, ss_start_time = 10, ss_end_time = 40, ss_text = ''a secret'',
        ss_score = 1.5, ss_emotions = [], ss_duration = 30 \<rparr>]"

definition candidate_10_40 :: highlight where
  "candidate_10_40 =
     \<lparr> start_time = 10, end_time = 40, h_text = ''a secret'', confidence = 0.5,
       h_score = Some 1.5, h_emotions = Some [], source = Some rule_based,
       h_title = None, h_emotion = None, viral_potential = None, reason = None,
       key_quotes = None \<rparr>"

definition merged_12_42 :: highlight where
  "merged_12_42 =
     \<lparr> start_time = 12, end_time = 42, h_text = [], confidence = 0.8,
       h_score = Some 1.5, h_emotions = Some [], source = Some combined,
       h_title = None, h_emotion = None, viral_potential = None, reason = None,
       key_quotes = None \<rparr>"

section \<open>Properties\<close>

lemmas str_defs = lower_def lower_char_def upper_char_def is_upper_def is_lower_def
  ascii_uppercase_def ascii_lowercase_def isspace_def split_def strip_def title_case_def

subsection \<open>Segment scorer\<close>

lemma emotion_loop_no_match:
  "\<forall>(emotion, kws) \<in> set eks. \<forall>k \<in> set kws. \<not> py_in k txt \<Longrightarrow>
   emotion_loop w txt eks acc = acc"
proof (induction eks arbitrary: acc)
  case Nil
  then show ?case by simp
next
  case (Cons ek eks)
  obtain emotion kws where ek: "ek = (emotion, kws)" by (cases ek)
  obtain score emotions where acc: "acc = (score, emotions)" by (cases acc)
  from Cons.prems ek have "filter (\<lambda>keyword. py_in keyword txt) kws = []"
    by (auto simp: filter_empty_conv)
  with Cons ek acc show ?case by simp
qed

lemma raw_score_no_match:
  assumes "\<forall>(emotion, kws) \<in> set emotion_keywords. \<forall>k \<in> set kws. \<not> py_in k txt"
    and "\<forall>p \<in> set hook_patterns. \<not> re_search_ignorecase p txt"
    and "\<forall>k \<in> set (keywords_boost cfg). \<not> py_in (lower k) txt"
  shows "raw_score cfg txt = (0, [])"
proof -
  have h: "filter (\<lambda>pattern. re_search_ignorecase pattern txt) hook_patterns = []"
    using assms(2) by (auto simp: filter_empty_conv)
  have b: "filter (\<lambda>keyword. py_in (lower keyword) txt) (keywords_boost cfg) = []"
    using assms(3) by (auto simp: filter_empty_conv)
  show ?thesis
    unfolding raw_score_def emotion_loop_no_match [OF assms(1)] h b by simp
qed

text \<open>
  Claim C9. A segment whose lower-cased text contains no emotion keyword, matches no hook
  pattern and contains no configured boost keyword has score 0: before any scaling, after
  the word-count penalty, and in the scored segment that \<open>score_segments\<close> returns (after
  the positional scaling).
\<close>

theorem score_zero_without_indicators:
  assumes "i < length segments"
    and "\<forall>(emotion, kws) \<in> set emotion_keywords. \<forall>k \<in> set kws.
           \<not> py_in k (lower (seg_text (segments ! i)))"
    and "\<forall>p \<in> set hook_patterns. \<not> re_search_ignorecase p (lower (seg_text (segments ! i)))"
    and "\<forall>k \<in> set (keywords_boost cfg). \<not> py_in (lower k) (lower (seg_text (segments ! i)))"
  shows "fst (raw_score cfg (lower (seg_text (segments ! i)))) = 0
       \<and> length_penalty (lower (seg_text (segments ! i)))
           (fst (raw_score cfg (lower (seg_text (segments ! i))))) = 0
       \<and> ss_score (score_segments cfg segments ! i) = 0"
proof -
  have r: "raw_score cfg (lower (seg_text (segments ! i))) = (0, [])"
    by (rule raw_score_no_match [OF assms(2) assms(3) assms(4)])
  have p: "length_penalty t 0 = 0" for t by (simp add: length_penalty_def Let_def)
  have q: "position_bonus j n 0 = 0" for j n by (simp add: position_bonus_def)
  have "score_segments cfg segments ! i = score_segment cfg (length segments) i (segments ! i)"
    using assms(1) by (simp add: score_segments_def nth_enumerate_eq)
  then show ?thesis by (simp add: r p q score_segment_def)
qed

theorem score_zero_without_indicators_witness:
  "(0::nat) < length intro_segments
   \<and> ss_score (score_segments money_config intro_segments ! 0) = 0"
proof -
  have h1: "(0::nat) < length intro_segments"
    by (simp add: intro_segments_def)
  have h2: "\<forall>(emotion, kws) \<in> set emotion_keywords. \<forall>k \<in> set kws.
           \<not> py_in k (lower (seg_text (intro_segments ! 0)))"
    by code_simp
  have h3: "\<forall>p \<in> set hook_patterns.
           \<not> re_search_ignorecase p (lower (seg_text (intro_segments ! 0)))"
    by code_simp
  have h4: "\<forall>k \<in> set (keywords_boost money_config).
           \<not> py_in (lower k) (lower (seg_text (intro_segments ! 0)))"
    by code_simp
  show ?thesis
    using score_zero_without_indicators [OF h1 h2 h3 h4] h1 by simp
qed

subsection \<open>Transcript chunking\<close>

lemma split_loop_inv:
  "split_loop chunks cur segs = (chunks', cur') \<Longrightarrow>
   (chunk_text cur \<noteq> []) = (chunk_segments cur \<noteq> []) \<Longrightarrow>
   concat (map chunk_segments chunks') @ chunk_segments cur'
     = concat (map chunk_segments chunks) @ chunk_segments cur @ segs
   \<and> ((chunk_text cur' \<noteq> []) = (chunk_segments cur' \<noteq> []))
   \<and> ([] \<notin> set (map chunk_segments chunks) \<longrightarrow> [] \<notin> set (map chunk_segments chunks'))"
proof (induction segs arbitrary: chunks cur)
  case Nil
  then show ?case by simp
next
  case (Cons segment rest)
  show ?case
  proof (cases "length (chunk_text cur @ seg_text segment) > chunk_size \<and> chunk_text cur \<noteq> []")
    case True
    define finished where "finished = cur \<lparr> chunk_end_time :=
        (if chunk_segments cur \<noteq> [] then seg_end (last (chunk_segments cur)) else 0) \<rparr>"
    define fresh where "fresh = \<lparr> chunk_text =
        (if length (chunk_text finished) > overlap
         then py_last_n overlap (chunk_text finished) else chunk_text finished)
          @ '' '' @ seg_text segment,
        chunk_segments = [segment], chunk_start_time = seg_start segment,
        chunk_end_time = seg_end segment \<rparr>"
    have "split_loop chunks cur (segment # rest) = split_loop (chunks @ [finished]) fresh rest"
      by (simp only: split_loop.simps Let_def if_P [OF True] finished_def fresh_def)
    with Cons.prems(1) have "split_loop (chunks @ [finished]) fresh rest = (chunks', cur')"
      by (simp only:)
    from Cons.IH [OF this] have
      "concat (map chunk_segments chunks') @ chunk_segments cur'
         = concat (map chunk_segments (chunks @ [finished])) @ chunk_segments fresh @ rest
       \<and> ((chunk_text cur' \<noteq> []) = (chunk_segments cur' \<noteq> []))
       \<and> ([] \<notin> set (map chunk_segments (chunks @ [finished]))
            \<longrightarrow> [] \<notin> set (map chunk_segments chunks'))"
      by (simp add: fresh_def)
    moreover have "chunk_segments finished = chunk_segments cur" "chunk_segments fresh = [segment]"
      by (simp_all add: finished_def fresh_def)
    moreover have "chunk_segments cur \<noteq> []" using True Cons.prems(2) by simp
    ultimately show ?thesis by simp
  next
    case False
    define started where "started =
        (if chunk_segments cur = [] then cur \<lparr> chunk_start_time := seg_start segment \<rparr> else cur)"
    define grown where "grown = started \<lparr> chunk_text := chunk_text started @ '' '' @ seg_text segment,
        chunk_segments := chunk_segments started @ [segment],
        chunk_end_time := seg_end segment \<rparr>"
    have "split_loop chunks cur (segment # rest) = split_loop chunks grown rest"
      by (simp only: split_loop.simps Let_def if_not_P [OF False] started_def grown_def)
    with Cons.prems(1) have "split_loop chunks grown rest = (chunks', cur')"
      by (simp only:)
    from Cons.IH [OF this] have
      "concat (map chunk_segments chunks') @ chunk_segments cur'
         = concat (map chunk_segments chunks) @ chunk_segments grown @ rest
       \<and> ((chunk_text cur' \<noteq> []) = (chunk_segments cur' \<noteq> []))
       \<and> ([] \<notin> set (map chunk_segments chunks) \<longrightarrow> [] \<notin> set (map chunk_segments chunks'))"
      by (simp add: grown_def)
    moreover have "chunk_segments grown = chunk_segments cur @ [segment]"
      by (simp add: grown_def started_def)
    ultimately show ?thesis by simp
  qed
qed

lemma split_transcript_segments:
  "concat (map chunk_segments (split_transcript transcript segments)) = segments
   \<and> [] \<notin> set (map chunk_segments (split_transcript transcript segments))"
proof -
  obtain chunks cur where l: "split_loop [] empty_chunk segments = (chunks, cur)"
    by (cases "split_loop [] empty_chunk segments")
  have e: "(chunk_text empty_chunk \<noteq> []) = (chunk_segments empty_chunk \<noteq> [])"
    by (simp add: empty_chunk_def)
  from split_loop_inv [OF l e] have
    c: "concat (map chunk_segments chunks) @ chunk_segments cur = segments"
    and t: "(chunk_text cur \<noteq> []) = (chunk_segments cur \<noteq> [])"
    and n: "[] \<notin> set (map chunk_segments chunks)"
    by (simp_all add: empty_chunk_def)
  show ?thesis
  proof (cases "chunk_text cur = []")
    case True
    with c t n l show ?thesis by (simp add: split_transcript_def)
  next
    case False
    with c t n l show ?thesis by (simp add: split_transcript_def)
  qed
qed

lemma texts_chained_snoc:
  "texts_chained pre (cs @ [c]) \<longleftrightarrow>
     texts_chained pre cs
     \<and> chunk_text c = (if cs = [] then pre else carried_overlap (chunk_text (last cs)))
                        @ segments_text (chunk_segments c)"
  by (induction cs arbitrary: pre) auto

lemma texts_chained_nth:
  "texts_chained pre cs \<Longrightarrow>
   (cs \<noteq> [] \<longrightarrow> chunk_text (cs ! 0) = pre @ segments_text (chunk_segments (cs ! 0)))
   \<and> (\<forall>k. Suc k < length cs \<longrightarrow>
          chunk_text (cs ! Suc k)
            = carried_overlap (chunk_text (cs ! k)) @ segments_text (chunk_segments (cs ! Suc k)))"
proof (induction cs arbitrary: pre)
  case Nil
  then show ?case by simp
next
  case (Cons c cs)
  from Cons.prems have h: "chunk_text c = pre @ segments_text (chunk_segments c)"
    and t: "texts_chained (carried_overlap (chunk_text c)) cs"
    by auto
  from Cons.IH [OF t] have
    a: "cs \<noteq> [] \<longrightarrow> chunk_text (cs ! 0)
          = carried_overlap (chunk_text c) @ segments_text (chunk_segments (cs ! 0))"
    and b: "\<forall>k. Suc k < length cs \<longrightarrow>
          chunk_text (cs ! Suc k)
            = carried_overlap (chunk_text (cs ! k)) @ segments_text (chunk_segments (cs ! Suc k))"
    by simp_all
  have "chunk_text ((c # cs) ! Suc k)
            = carried_overlap (chunk_text ((c # cs) ! k))
                @ segments_text (chunk_segments ((c # cs) ! Suc k))"
    if "Suc k < length (c # cs)" for k
  proof (cases k)
    case 0
    with that a show ?thesis by auto
  next
    case (Suc j)
    with that b show ?thesis by auto
  qed
  with h show ?case by simp
qed

lemma split_loop_texts:
  "split_loop chunks cur segs = (chunks', cur') \<Longrightarrow>
   texts_chained [] (chunks @ [cur]) \<Longrightarrow> texts_chained [] (chunks' @ [cur'])"
proof (induction segs arbitrary: chunks cur)
  case Nil
  then show ?case by simp
next
  case (Cons segment rest)
  show ?case
  proof (cases "length (chunk_text cur @ seg_text segment) > chunk_size \<and> chunk_text cur \<noteq> []")
    case True
    define finished where "finished = cur \<lparr> chunk_end_time :=
        (if chunk_segments cur \<noteq> [] then seg_end (last (chunk_segments cur)) else 0) \<rparr>"
    define fresh where "fresh = \<lparr> chunk_text =
        (if length (chunk_text finished) > overlap
         then py_last_n overlap (chunk_text finished) else chunk_text finished)
          @ '' '' @ seg_text segment,
        chunk_segments = [segment], chunk_start_time = seg_start segment,
        chunk_end_time = seg_end segment \<rparr>"
    have "split_loop chunks cur (segment # rest) = split_loop (chunks @ [finished]) fresh rest"
      by (simp only: split_loop.simps Let_def if_P [OF True] finished_def fresh_def)
    with Cons.prems(1) have r: "split_loop (chunks @ [finished]) fresh rest = (chunks', cur')"
      by (simp only:)
    have f: "chunk_text finished = chunk_text cur" "chunk_segments finished = chunk_segments cur"
      by (simp_all add: finished_def)
    from Cons.prems(2) f have 1: "texts_chained [] (chunks @ [finished])"
      by (simp add: texts_chained_snoc)
    have 2: "chunk_text fresh
               = carried_overlap (chunk_text finished) @ segments_text (chunk_segments fresh)"
      by (simp add: fresh_def carried_overlap_def segments_text_def)
    from 1 2 have "texts_chained [] ((chunks @ [finished]) @ [fresh])"
      by (subst texts_chained_snoc) simp
    from Cons.IH [OF r this] show ?thesis .
  next
    case False
    define started where "started =
        (if chunk_segments cur = [] then cur \<lparr> chunk_start_time := seg_start segment \<rparr> else cur)"
    define grown where "grown = started \<lparr> chunk_text := chunk_text started @ '' '' @ seg_text segment,
        chunk_segments := chunk_segments started @ [segment],
        chunk_end_time := seg_end segment \<rparr>"
    have "split_loop chunks cur (segment # rest) = split_loop chunks grown rest"
      by (simp only: split_loop.simps Let_def if_not_P [OF False] started_def grown_def)
    with Cons.prems(1) have r: "split_loop chunks grown rest = (chunks', cur')"
      by (simp only:)
    have g: "chunk_text grown = chunk_text cur @ '' '' @ seg_text segment"
      "chunk_segments grown = chunk_segments cur @ [segment]"
      by (simp_all add: grown_def started_def)
    from Cons.prems(2) g have "texts_chained [] (chunks @ [grown])"
      by (simp add: texts_chained_snoc segments_text_def)
    from Cons.IH [OF r this] show ?thesis .
  qed
qed

lemma split_transcript_texts: "texts_chained [] (split_transcript transcript segments)"
proof -
  obtain chunks cur where l: "split_loop [] empty_chunk segments = (chunks, cur)"
    by (cases "split_loop [] empty_chunk segments")
  have "texts_chained [] ([] @ [empty_chunk])"
    by (simp add: empty_chunk_def segments_text_def)
  from split_loop_texts [OF l this] have t: "texts_chained [] (chunks @ [cur])" .
  then have "texts_chained [] chunks" by (simp add: texts_chained_snoc)
  with t l show ?thesis by (simp add: split_transcript_def)
qed

lemma carried_overlap_long:
  "carried_overlap ('' '' @ replicate 600 CHR ''a'') = replicate 200 CHR ''a''"
  by code_simp

text \<open>
  Claim C10. Chunking partitions the segment sequence: the segment lists of the chunks,
  concatenated in order, are the input segment list, and no chunk is without segments.
  Only the chunk text carries the overlap: the text of the first chunk is the text of its
  own segments, and the text of every later chunk is the overlap carried from the text of
  the chunk before it (its last 200 characters, or all of it when it is no longer than
  that) followed by the text of its own segments.
\<close>

theorem split_transcript_partition:
  "concat (map chunk_segments (split_transcript transcript segments)) = segments
   \<and> [] \<notin> set (map chunk_segments (split_transcript transcript segments))
   \<and> (split_transcript transcript segments \<noteq> [] \<longrightarrow>
        chunk_text (split_transcript transcript segments ! 0)
          = segments_text (chunk_segments (split_transcript transcript segments ! 0)))
   \<and> (\<forall>k. Suc k < length (split_transcript transcript segments) \<longrightarrow>
          chunk_text (split_transcript transcript segments ! Suc k)
            = carried_overlap (chunk_text (split_transcript transcript segments ! k))
                @ segments_text (chunk_segments (split_transcript transcript segments ! Suc k)))"
  using split_transcript_segments [of transcript segments]
    texts_chained_nth [OF split_transcript_texts, of transcript segments]
  by simp

theorem split_transcript_partition_witness:
  "Suc 0 < length (split_transcript [] two_long_segments)
   \<and> map chunk_segments (split_transcript [] two_long_segments)
       = [[two_long_segments ! 0], [two_long_segments ! 1]]
   \<and> chunk_text (split_transcript [] two_long_segments ! 0) = '' '' @ replicate 600 CHR ''a''
   \<and> chunk_text (split_transcript [] two_long_segments ! Suc 0)
       = replicate 200 CHR ''a'' @ '' '' @ replicate 600 CHR ''b''"
proof -
  have l: "Suc 0 < length (split_transcript [] two_long_segments)"
    by code_simp
  have m: "map chunk_segments (split_transcript [] two_long_segments)
       = [[two_long_segments ! 0], [two_long_segments ! 1]]"
    by code_simp
  from l have ne: "split_transcript [] two_long_segments \<noteq> []" by auto
  from l m have s0: "chunk_segments (split_transcript [] two_long_segments ! 0)
                      = [two_long_segments ! 0]"
    and s1: "chunk_segments (split_transcript [] two_long_segments ! Suc 0)
                      = [two_long_segments ! 1]"
    by (simp_all add: list_eq_iff_nth_eq)
  have t0: "segments_text [two_long_segments ! 0] = '' '' @ replicate 600 CHR ''a''"
    and t1: "segments_text [two_long_segments ! 1] = '' '' @ replicate 600 CHR ''b''"
    by (simp_all add: segments_text_def two_long_segments_def)
  from split_transcript_partition [of "[]" two_long_segments] ne l
  have c0: "chunk_text (split_transcript [] two_long_segments ! 0)
          = segments_text (chunk_segments (split_transcript [] two_long_segments ! 0))"
    and c1: "chunk_text (split_transcript [] two_long_segments ! Suc 0)
            = carried_overlap (chunk_text (split_transcript [] two_long_segments ! 0))
                @ segments_text (chunk_segments (split_transcript [] two_long_segments ! Suc 0))"
    by blast+
  from c0 have c0': "chunk_text (split_transcript [] two_long_segments ! 0)
                       = '' '' @ replicate 600 CHR ''a''"
    by (simp only: s0 t0)
  from c1 have c1': "chunk_text (split_transcript [] two_long_segments ! Suc 0)
       = replicate 200 CHR ''a'' @ '' '' @ replicate 600 CHR ''b''"
    by (simp only: c0' s1 t1 carried_overlap_long)
  from l m c0' c1' show ?thesis by blast
qed

subsection \<open>Ranker and filter\<close>

lemmas filter_defs = filter_highlights_def sort_by_confidence_def plain_highlight_def
  overlap_ratio_def overlap_duration_def max_highlights_def min_confidence_def

lemma overlap_found_False_iff:
  "overlap_found h pre = Inr False \<longleftrightarrow> (\<forall>e \<in> set pre. compat e h)"
  by (induction pre) (auto simp: overlap_ratio_def compat_def Let_def)

lemma filter_loop_sorted_wrt:
  "filter_loop acc xs = Inr f \<Longrightarrow> sorted_wrt compat acc \<Longrightarrow> sorted_wrt compat f"
proof (induction xs arbitrary: acc)
  case Nil
  then show ?case by simp
next
  case (Cons h hs)
  from Cons.prems(1) obtain found where
    f: "overlap_found h acc = Inr found"
    and r: "filter_loop (if found then acc else acc @ [h]) hs = Inr f"
    by (auto split: sum.splits)
  show ?case
  proof (cases found)
    case True
    with r Cons.IH Cons.prems(2) show ?thesis by simp
  next
    case False
    with f have "\<forall>e \<in> set acc. compat e h" by (simp add: overlap_found_False_iff)
    with Cons.prems(2) have "sorted_wrt compat (acc @ [h])"
      by (simp add: sorted_wrt_append)
    with r False Cons.IH show ?thesis by simp
  qed
qed

lemma filter_loop_accepts_all:
  "sorted_wrt compat (acc @ xs) \<Longrightarrow> filter_loop acc xs = Inr (acc @ xs)"
proof (induction xs arbitrary: acc)
  case Nil
  then show ?case by simp
next
  case (Cons h hs)
  from Cons.prems have "\<forall>e \<in> set acc. compat e h"
    by (simp add: sorted_wrt_append)
  then have f: "overlap_found h acc = Inr False" by (simp add: overlap_found_False_iff)
  from Cons.prems have "sorted_wrt compat ((acc @ [h]) @ hs)" by simp
  from Cons.IH [OF this] f show ?case by simp
qed

lemma filter_loop_sorted_conf:
  "filter_loop acc xs = Inr f \<Longrightarrow> sorted (map (\<lambda>x. - confidence x) (acc @ xs)) \<Longrightarrow>
   sorted (map (\<lambda>x. - confidence x) f)"
proof (induction xs arbitrary: acc)
  case Nil
  then show ?case by simp
next
  case (Cons h hs)
  from Cons.prems(1) obtain found where
    r: "filter_loop (if found then acc else acc @ [h]) hs = Inr f"
    by (auto split: sum.splits)
  from Cons.prems(2) have
    a: "sorted (map (\<lambda>x. - confidence x) (acc @ hs))"
    and b: "sorted (map (\<lambda>x. - confidence x) ((acc @ [h]) @ hs))"
    by (auto simp: sorted_append)
  show ?case
    using Cons.IH [of "acc"] Cons.IH [of "acc @ [h]"] r a b by (cases found) simp_all
qed

lemma filter_highlights_sorted_wrt:
  assumes "filter_highlights highlights = Inr out"
  shows "sorted_wrt compat out \<and> sorted (map (\<lambda>x. - confidence x) out)
       \<and> length out \<le> max_highlights \<and> (\<forall>h \<in> set out. confidence h \<ge> min_confidence)"
proof -
  from assms obtain f where
    f: "filter_loop [] (sort_by_confidence highlights) = Inr f"
    and out: "out = filter (\<lambda>h. confidence h \<ge> min_confidence) (take max_highlights f)"
    by (auto simp: filter_highlights_def split: sum.splits)
  from filter_loop_sorted_wrt [OF f] have "sorted_wrt compat f" by simp
  then have c: "sorted_wrt compat out"
    unfolding out by (intro sorted_wrt_filter sorted_wrt_take)
  have "sorted (map (\<lambda>x. - confidence x) (sort_by_confidence highlights))"
    by (simp add: sort_by_confidence_def)
  with filter_loop_sorted_conf [OF f] have "sorted (map (\<lambda>x. - confidence x) f)" by simp
  then have "sorted (map (\<lambda>x. - confidence x) (take max_highlights f))"
    by (simp add: take_map [symmetric] sorted_wrt_take)
  then have s: "sorted (map (\<lambda>x. - confidence x) out)"
    unfolding out by (rule sorted_filter)
  have l: "length out \<le> max_highlights"
    unfolding out by (rule le_trans [OF length_filter_le]) simp
  have p: "\<forall>h \<in> set out. confidence h \<ge> min_confidence"
    unfolding out by simp
  from c s l p show ?thesis by simp
qed

text \<open>
  Claim C1, as the code has it. For two highlights of the final filtered list, the one at
  position \<open>i\<close> before the one at position \<open>j\<close> (so of at least its confidence), the shared
  duration divided by the duration of the later one is at most 0.5; the divisor is the
  duration of the candidate being examined, not of the shorter of the two, and 0.5 is a
  constant of the code.
\<close>

theorem filter_highlights_pairwise:
  assumes "filter_highlights highlights = Inr out" and "i < j" and "j < length out"
  shows "overlap_ratio (out ! j) (out ! i)
           = Inr (overlap_duration (out ! j) (out ! i) / (end_time (out ! j) - start_time (out ! j)))
       \<and> overlap_duration (out ! j) (out ! i) / (end_time (out ! j) - start_time (out ! j)) \<le> 0.5"
proof -
  from filter_highlights_sorted_wrt [OF assms(1)] have "sorted_wrt compat out" by simp
  with assms(2,3) have "compat (out ! i) (out ! j)"
    by (simp add: sorted_wrt_iff_nth_less)
  then show ?thesis by (simp add: compat_def overlap_ratio_def)
qed

theorem filter_highlights_pairwise_witness:
  "filter_highlights two_apart = Inr two_apart
   \<and> overlap_duration (two_apart ! 1) (two_apart ! 0)
       / (end_time (two_apart ! 1) - start_time (two_apart ! 1)) \<le> 0.5"
proof -
  have h: "filter_highlights two_apart = Inr two_apart"
    by (simp add: two_apart_def filter_defs)
  have l: "(0::nat) < 1" "1 < length two_apart"
    by (simp_all add: two_apart_def)
  from filter_highlights_pairwise [OF h l] h show ?thesis by simp
qed

text \<open>The claim as the specification words it fails: a 10 second highlight and a 100 second
  highlight that contains it are both kept, and their overlap ratio against the shorter
  one is 1.\<close>

theorem filter_highlights_shorter_counterexample:
  "filter_highlights short_then_long = Inr short_then_long
   \<and> spec_overlap_ratio (short_then_long ! 0) (short_then_long ! 1) = 1
   \<and> \<not> spec_overlap_ratio (short_then_long ! 0) (short_then_long ! 1) \<le> 0.5"
  by (simp add: short_then_long_def spec_overlap_ratio_def filter_defs)

text \<open>
  Claim C5. The filter is idempotent: applied to a list it returned, it returns that list,
  with the same elements in the same order.
\<close>

theorem filter_highlights_idempotent:
  assumes "filter_highlights highlights = Inr out"
  shows "filter_highlights out = Inr out"
proof -
  from filter_highlights_sorted_wrt [OF assms] have
    c: "sorted_wrt compat out"
    and s: "sorted (map (\<lambda>x. - confidence x) out)"
    and l: "length out \<le> max_highlights"
    and p: "\<forall>h \<in> set out. confidence h \<ge> min_confidence"
    by simp_all
  from s have s': "sort_by_confidence out = out"
    by (simp add: sort_by_confidence_def sort_key_id_if_sorted)
  from l have l': "take max_highlights out = out" by simp
  from p have p': "filter (\<lambda>h. confidence h \<ge> min_confidence) out = out" by simp
  from filter_loop_accepts_all [of "[]" out] c have "filter_loop [] out = Inr out" by simp
  then show ?thesis by (simp add: filter_highlights_def s' l' p')
qed

theorem filter_highlights_idempotent_witness:
  "filter_highlights four_candidates = Inr four_filtered
   \<and> filter_highlights four_filtered = Inr four_filtered"
proof -
  have h: "filter_highlights four_candidates = Inr four_filtered"
    by (simp add: four_candidates_def four_filtered_def filter_defs)
  from filter_highlights_idempotent [OF h] h show ?thesis by simp
qed

subsection \<open>Merger\<close>

lemma merge_existing_None_iff:
  "merge_existing l cs = None \<longleftrightarrow> (\<forall>e \<in> set cs. \<not> same_moment l e)"
  by (induction cs) auto

lemma merge_existing_first:
  assumes "i < length cs" and "same_moment l (cs ! i)" and "\<forall>j < i. \<not> same_moment l (cs ! j)"
  shows "merge_existing l cs =
     Some (cs [i := (if confidence l > confidence (cs ! i)
                     then (dict_update (cs ! i) l) \<lparr> source := Some combined \<rparr>
                     else cs ! i)])"
  using assms
proof (induction cs arbitrary: i)
  case Nil
  then show ?case by simp
next
  case (Cons e es)
  show ?case
  proof (cases i)
    case 0
    with Cons.prems show ?thesis by simp
  next
    case (Suc k)
    with Cons.prems have "\<not> same_moment l e" by auto
    moreover from Suc Cons.prems have "k < length es" "same_moment l (es ! k)"
      "\<forall>j < k. \<not> same_moment l (es ! j)" by auto
    ultimately show ?thesis using Cons.IH [of k] Suc by simp
  qed
qed

lemma add_llm_highlight_step:
  "((\<forall>e \<in> set cs. \<not> same_moment l e) \<longrightarrow>
       add_llm_highlight cs l = cs @ [l \<lparr> source := Some llm \<rparr>])
   \<and> (i < length cs \<and> same_moment l (cs ! i) \<and> (\<forall>j < i. \<not> same_moment l (cs ! j)) \<longrightarrow>
         length (add_llm_highlight cs l) = length cs
       \<and> (\<forall>j < length cs. j \<noteq> i \<longrightarrow> add_llm_highlight cs l ! j = cs ! j)
       \<and> (confidence l > confidence (cs ! i) \<longrightarrow>
            start_time (add_llm_highlight cs l ! i) = start_time l
          \<and> end_time (add_llm_highlight cs l ! i) = end_time l
          \<and> h_text (add_llm_highlight cs l ! i) = h_text l
          \<and> confidence (add_llm_highlight cs l ! i) = confidence l
          \<and> source (add_llm_highlight cs l ! i) = Some combined)
       \<and> (\<not> confidence l > confidence (cs ! i) \<longrightarrow> add_llm_highlight cs l = cs))"
proof -
  have none: "add_llm_highlight cs l = cs @ [l \<lparr> source := Some llm \<rparr>]"
    if "\<forall>e \<in> set cs. \<not> same_moment l e"
    using that by (simp add: add_llm_highlight_def merge_existing_None_iff [symmetric])
  have first: "length (add_llm_highlight cs l) = length cs
       \<and> (\<forall>j < length cs. j \<noteq> i \<longrightarrow> add_llm_highlight cs l ! j = cs ! j)
       \<and> (confidence l > confidence (cs ! i) \<longrightarrow>
            start_time (add_llm_highlight cs l ! i) = start_time l
          \<and> end_time (add_llm_highlight cs l ! i) = end_time l
          \<and> h_text (add_llm_highlight cs l ! i) = h_text l
          \<and> confidence (add_llm_highlight cs l ! i) = confidence l
          \<and> source (add_llm_highlight cs l ! i) = Some combined)
       \<and> (\<not> confidence l > confidence (cs ! i) \<longrightarrow> add_llm_highlight cs l = cs)"
    if a: "i < length cs \<and> same_moment l (cs ! i) \<and> (\<forall>j < i. \<not> same_moment l (cs ! j))"
  proof -
    from a have m: "merge_existing l cs =
       Some (cs [i := (if confidence l > confidence (cs ! i)
                     then (dict_update (cs ! i) l) \<lparr> source := Some combined \<rparr>
                     else cs ! i)])"
      by (intro merge_existing_first) simp_all
    from a show ?thesis
      by (simp add: add_llm_highlight_def m dict_update_def)
  qed
  from none first show ?thesis by blast
qed

lemma combine_analyses_snoc:
  "combine_analyses cfg scored ls segs = Inr cs \<Longrightarrow>
   combine_analyses cfg scored (ls @ [l]) segs = Inr (add_llm_highlight cs l)"
  by (auto simp: combine_analyses_def split: sum.splits)

lemma combine_scenario_rule_only:
  "combine_analyses default_config scored_10_40 [] segment_10_40 = Inr [candidate_10_40]"
  by code_simp

lemma combine_scenario_merged:
  "combine_analyses default_config scored_10_40 [semantic_12_42] segment_10_40
     = Inr [merged_12_42]"
  by code_simp

text \<open>
  Claim C3. The merge \<open>combine_analyses\<close> starts from the rule-based candidates and takes the
  semantic candidates in order. Let \<open>cs\<close> be the accepted entries after the candidates \<open>ls\<close>,
  and \<open>l\<close> the next candidate. If no accepted entry has its start within 10 seconds of the
  candidate's start or its end within 10 seconds of the candidate's end, the candidate is
  appended with source \<open>llm\<close> (the specification's "semantic"). Otherwise it is merged with
  the first such entry, at index \<open>i\<close>: no entry is added and the other entries stay; if the
  candidate has the higher confidence, the entry takes the candidate's start, end, text
  and confidence and its source becomes \<open>combined\<close>; if not, the list is unchanged and the
  candidate is dropped.
\<close>

theorem merge_semantic_candidate:
  assumes "combine_analyses cfg scored ls segs = Inr cs"
  shows "combine_analyses cfg scored [] segs = rule_based_loop cfg segs [] scored
     \<and> (\<exists>out. combine_analyses cfg scored (ls @ [l]) segs = Inr out
        \<and> ((\<forall>e \<in> set cs. \<not> same_moment l e) \<longrightarrow> out = cs @ [l \<lparr> source := Some llm \<rparr>])
        \<and> (i < length cs \<and> same_moment l (cs ! i) \<and> (\<forall>j < i. \<not> same_moment l (cs ! j)) \<longrightarrow>
              length out = length cs
            \<and> (\<forall>j < length cs. j \<noteq> i \<longrightarrow> out ! j = cs ! j)
            \<and> (confidence l > confidence (cs ! i) \<longrightarrow>
                 start_time (out ! i) = start_time l
               \<and> end_time (out ! i) = end_time l
               \<and> h_text (out ! i) = h_text l
               \<and> confidence (out ! i) = confidence l
               \<and> source (out ! i) = Some combined)
            \<and> (\<not> confidence l > confidence (cs ! i) \<longrightarrow> out = cs)))"
proof -
  have base: "combine_analyses cfg scored [] segs = rule_based_loop cfg segs [] scored"
    by (simp add: combine_analyses_def split: sum.splits)
  from combine_analyses_snoc [OF assms, of l] add_llm_highlight_step [of cs l i] base
  show ?thesis by blast
qed

text \<open>The scenario of the specification run through the merge: the rule-based candidate
  \<open>[10,40]\<close> of confidence 0.5 and the semantic candidate \<open>[12,42]\<close> of confidence 0.8 leave one
  entry \<open>[12,42]\<close> of confidence 0.8 marked \<open>combined\<close>; a semantic candidate \<open>[200,230]\<close>, far
  from the rule-based one, is admitted with source \<open>llm\<close>.\<close>

theorem merge_semantic_candidate_witness:
  "combine_analyses default_config scored_10_40 [] segment_10_40 = Inr [candidate_10_40]
   \<and> combine_analyses default_config scored_10_40 [semantic_12_42] segment_10_40
       = Inr [merged_12_42]
   \<and> (\<exists>out. combine_analyses default_config scored_10_40 [semantic_12_42] segment_10_40 = Inr out
        \<and> length out = 1
        \<and> start_time (out ! 0) = 12 \<and> end_time (out ! 0) = 42
        \<and> confidence (out ! 0) = 0.8 \<and> source (out ! 0) = Some combined)
   \<and> combine_analyses default_config scored_10_40 [semantic_200_230] segment_10_40
       = Inr [candidate_10_40, semantic_200_230 \<lparr> source := Some llm \<rparr>]"
proof -
  have near: "(0::nat) < length [candidate_10_40]
      \<and> same_moment semantic_12_42 ([candidate_10_40] ! 0)
      \<and> (\<forall>j < (0::nat). \<not> same_moment semantic_12_42 ([candidate_10_40] ! j))"
    by (simp add: same_moment_def candidate_10_40_def semantic_12_42_def plain_highlight_def)
  have wins: "confidence semantic_12_42 > confidence ([candidate_10_40] ! 0)"
    by (simp add: candidate_10_40_def semantic_12_42_def plain_highlight_def)
  have far: "\<forall>e \<in> set [candidate_10_40]. \<not> same_moment semantic_200_230 e"
    by (simp add: same_moment_def candidate_10_40_def semantic_200_230_def plain_highlight_def)
  have vals: "start_time semantic_12_42 = 12" "end_time semantic_12_42 = 42"
    "confidence semantic_12_42 = 0.8"
    by (simp_all add: semantic_12_42_def plain_highlight_def)
  from merge_semantic_candidate [OF combine_scenario_rule_only, of semantic_12_42 0] near wins
  obtain out where
    o: "combine_analyses default_config scored_10_40 ([] @ [semantic_12_42]) segment_10_40
          = Inr out"
    and p: "length out = length [candidate_10_40]"
      "start_time (out ! 0) = start_time semantic_12_42"
      "end_time (out ! 0) = end_time semantic_12_42"
      "confidence (out ! 0) = confidence semantic_12_42"
      "source (out ! 0) = Some combined"
    by blast
  from o p vals have a: "\<exists>out. combine_analyses default_config scored_10_40 [semantic_12_42]
          segment_10_40 = Inr out
        \<and> length out = 1
        \<and> start_time (out ! 0) = 12 \<and> end_time (out ! 0) = 42
        \<and> confidence (out ! 0) = 0.8 \<and> source (out ! 0) = Some combined"
    by simp
  from merge_semantic_candidate [OF combine_scenario_rule_only, of semantic_200_230 0] far
  obtain out' where
    "combine_analyses default_config scored_10_40 ([] @ [semantic_200_230]) segment_10_40
          = Inr out'"
    "out' = [candidate_10_40] @ [semantic_200_230 \<lparr> source := Some llm \<rparr>]"
    by blast
  then have b: "combine_analyses default_config scored_10_40 [semantic_200_230] segment_10_40
       = Inr [candidate_10_40, semantic_200_230 \<lparr> source := Some llm \<rparr>]"
    by simp
  from a b combine_scenario_rule_only combine_scenario_merged show ?thesis by blast
qed

subsection \<open>Rule-based candidates and their windows\<close>

lemma extend_forward_props:
  "extend_forward segs m s e t = (e', t') \<Longrightarrow> e < length segs \<Longrightarrow>
   t = window_duration segs s e \<Longrightarrow>
   e \<le> e' \<and> e' < length segs \<and> t' = window_duration segs s e'
   \<and> (t' \<ge> m \<or> Suc e' = length segs)"
proof (induction segs m s e t rule: extend_forward.induct)
  case (1 segs m s e t)
  show ?case
  proof (cases "Suc e < length segs \<and> t < m")
    case True
    with "1.prems"(1) have
      "extend_forward segs m s (Suc e) (seg_end (segs ! Suc e) - seg_start (segs ! s)) = (e', t')"
      by (simp del: extend_forward.simps add: extend_forward.simps [of segs m s e t])
    from "1.IH" [OF True this] True show ?thesis
      by (auto simp: window_duration_def)
  next
    case False
    with "1.prems" show ?thesis by auto
  qed
qed

lemma extend_backward_props:
  "extend_backward segs m s e t = (s', t') \<Longrightarrow> t = window_duration segs s e \<Longrightarrow>
   s' \<le> s \<and> t' = window_duration segs s' e \<and> (t' \<ge> m \<or> s' = 0)"
proof (induction segs m s e t rule: extend_backward.induct)
  case (1 segs m s e t)
  show ?case
  proof (cases "0 < s \<and> t < m")
    case True
    with "1.prems"(1) have
      "extend_backward segs m (s - 1) e (seg_end (segs ! e) - seg_start (segs ! (s - 1))) = (s', t')"
      by (simp del: extend_backward.simps add: extend_backward.simps [of segs m s e t])
    from "1.IH" [OF True this] True show ?thesis
      by (auto simp: window_duration_def)
  next
    case False
    with "1.prems" show ?thesis by auto
  qed
qed

lemma trim_end_props:
  "trim_end segs M s e t = (e', t') \<Longrightarrow> s \<le> e \<Longrightarrow> t = window_duration segs s e \<Longrightarrow>
   s \<le> e' \<and> e' \<le> e \<and> t' = window_duration segs s e'
   \<and> (t' \<le> M \<or> e' = s) \<and> (e' = e \<or> window_duration segs s (Suc e') > M)"
proof (induction segs M s e t rule: trim_end.induct)
  case (1 segs M s e t)
  show ?case
  proof (cases "t > M \<and> e > s")
    case True
    with "1.prems"(1) have
      r: "trim_end segs M s (e - 1) (seg_end (segs ! (e - 1)) - seg_start (segs ! s)) = (e', t')"
      by (simp del: trim_end.simps add: trim_end.simps [of segs M s e t])
    from True have le: "s \<le> e - 1" by auto
    from "1.IH" [OF True r le] have
      p: "s \<le> e' \<and> e' \<le> e - 1 \<and> t' = window_duration segs s e'
        \<and> (t' \<le> M \<or> e' = s) \<and> (e' = e - 1 \<or> window_duration segs s (Suc e') > M)"
      by (auto simp: window_duration_def)
    from True "1.prems"(3) have "window_duration segs s (Suc (e - 1)) > M" by auto
    with p True show ?thesis by auto
  next
    case False
    with "1.prems" show ?thesis by auto
  qed
qed

lemma resolve_window_props:
  assumes "resolve_window cfg segs idx d = (s, e)"
    and "idx < length segs"
    and "d = window_duration segs idx idx"
  shows "s \<le> e \<and> e < length segs
       \<and> (window_duration segs s e \<le> get_default 65 (clip_duration_max cfg) \<or> s = e)
       \<and> (window_duration segs s e \<ge> get_default 25 (clip_duration_min cfg)
           \<or> (s = 0 \<and> Suc e = length segs)
           \<or> (Suc e < length segs
               \<and> window_duration segs s (Suc e) > get_default 65 (clip_duration_max cfg)))"
proof -
  define m where "m = get_default 25 (clip_duration_min cfg)"
  define M where "M = get_default 65 (clip_duration_max cfg)"
  obtain e1 t1 where f: "extend_forward segs m idx idx d = (e1, t1)"
    by (cases "extend_forward segs m idx idx d")
  obtain s2 t2 where b: "extend_backward segs m idx e1 t1 = (s2, t2)"
    by (cases "extend_backward segs m idx e1 t1")
  obtain e3 t3 where t: "trim_end segs M s2 e1 t2 = (e3, t3)"
    by (cases "trim_end segs M s2 e1 t2")
  from assms(1) f b t have se: "s = s2" "e = e3"
    by (simp_all add: resolve_window_def m_def [symmetric] M_def [symmetric])
  from extend_forward_props [OF f assms(2) assms(3)] have
    f1: "idx \<le> e1" "e1 < length segs" "t1 = window_duration segs idx e1"
      "t1 \<ge> m \<or> Suc e1 = length segs"
    by auto
  from extend_backward_props [OF b f1(3)] have
    b1: "s2 \<le> idx" "t2 = window_duration segs s2 e1" "t2 \<ge> m \<or> s2 = 0"
    by auto
  have b2: "t2 \<ge> m \<or> (s2 = 0 \<and> Suc e1 = length segs)"
  proof (cases "t1 \<ge> m")
    case True
    with b have "t2 = t1" by simp
    with True show ?thesis by simp
  next
    case False
    with f1(4) b1(3) show ?thesis by simp
  qed
  from b1(1) f1(1) have le: "s2 \<le> e1" by simp
  from trim_end_props [OF t le b1(2)] have
    t1: "s2 \<le> e3" "e3 \<le> e1" "t3 = window_duration segs s2 e3"
      "t3 \<le> M \<or> e3 = s2" "e3 = e1 \<or> window_duration segs s2 (Suc e3) > M"
    by auto
  show ?thesis
  proof (cases "e3 = e1")
    case True
    with t1 b1 b2 f1 se show ?thesis
      unfolding m_def [symmetric] M_def [symmetric] by auto
  next
    case False
    with t1(2) f1(2) have "Suc e3 < length segs" by simp
    with False t1 f1 se show ?thesis
      unfolding m_def [symmetric] M_def [symmetric] by auto
  qed
qed

lemma rule_based_highlight_fields:
  assumes "segment_index seg < length segs"
  shows "\<exists>h. rule_based_highlight cfg segs seg = Inr h
       \<and> confidence h = min (ss_score seg / 3) 1 \<and> source h = Some rule_based
       \<and> h_score h = Some (ss_score seg)
       \<and> start_time h = seg_start (segs ! fst (resolve_window cfg segs (segment_index seg) (ss_duration seg)))
       \<and> end_time h = seg_end (segs ! snd (resolve_window cfg segs (segment_index seg) (ss_duration seg)))"
  using assms by (simp add: rule_based_highlight_def split: prod.splits)

lemma rule_based_loop_props:
  assumes "\<forall>s \<in> set scored. segment_index s < length segs"
  shows "\<exists>cs. rule_based_loop cfg segs acc scored = Inr (acc @ cs)
       \<and> list_all2 (\<lambda>s c. rule_based_highlight cfg segs s = Inr c)
           (filter (\<lambda>s. ss_score s \<ge> get_default 0.6 (min_engagement_score cfg)) scored) cs"
  using assms
proof (induction scored arbitrary: acc)
  case Nil
  then show ?case by simp
next
  case (Cons s rest)
  then have r: "\<forall>s \<in> set rest. segment_index s < length segs" by simp
  show ?case
  proof (cases "ss_score s \<ge> get_default 0.6 (min_engagement_score cfg)")
    case True
    from Cons.prems obtain h where h: "rule_based_highlight cfg segs s = Inr h"
      using rule_based_highlight_fields [of s segs cfg] by auto
    from Cons.IH [OF r, of "acc @ [h]"] obtain cs where
      "rule_based_loop cfg segs (acc @ [h]) rest = Inr (acc @ [h] @ cs)"
      "list_all2 (\<lambda>s c. rule_based_highlight cfg segs s = Inr c)
           (filter (\<lambda>s. ss_score s \<ge> get_default 0.6 (min_engagement_score cfg)) rest) cs"
      by auto
    with True h show ?thesis by (intro exI [of _ "h # cs"]) simp
  next
    case False
    with Cons.IH [OF r, of acc] show ?thesis by simp
  qed
qed

lemma score_segments_index:
  "\<forall>s \<in> set (score_segments cfg segs). segment_index s < length segs
     \<and> ss_duration s = window_duration segs (segment_index s) (segment_index s)"
proof
  fix s assume "s \<in> set (score_segments cfg segs)"
  then obtain i where i: "i < length segs" and s: "s = score_segments cfg segs ! i"
    by (auto simp: in_set_conv_nth score_segments_def)
  from i have "score_segments cfg segs ! i = score_segment cfg (length segs) i (segs ! i)"
    by (simp add: score_segments_def nth_enumerate_eq)
  with i s show "segment_index s < length segs
     \<and> ss_duration s = window_duration segs (segment_index s) (segment_index s)"
    by (simp add: score_segment_def Let_def window_duration_def split: prod.splits)
qed

text \<open>
  Claim C6. In the merge step the scored segments of score at least the configured minimum
  (default 0.6), in order, are converted one to one into candidates with confidence
  \<open>min (score / 3) 1\<close> and source \<open>rule_based\<close>; segments below the minimum give no candidate.
  With no semantic highlight these candidates are the whole result of the merge. The
  hypothesis holds for the scored segments that the scorer makes from the same segments.
\<close>

theorem rule_based_candidates:
  assumes "\<forall>s \<in> set scored. segment_index s < length segs"
  shows "\<exists>cs. rule_based_loop cfg segs [] scored = Inr cs
       \<and> combine_analyses cfg scored [] segs = Inr cs
       \<and> list_all2
           (\<lambda>s c. confidence c = min (ss_score s / 3) 1 \<and> source c = Some rule_based
                  \<and> h_score c = Some (ss_score s))
           (filter (\<lambda>s. ss_score s \<ge> get_default 0.6 (min_engagement_score cfg)) scored) cs"
proof -
  from rule_based_loop_props [OF assms, of cfg "[]"] obtain cs where
    l: "rule_based_loop cfg segs [] scored = Inr cs"
    and a: "list_all2 (\<lambda>s c. rule_based_highlight cfg segs s = Inr c)
           (filter (\<lambda>s. ss_score s \<ge> get_default 0.6 (min_engagement_score cfg)) scored) cs"
    by auto
  have "list_all2
           (\<lambda>s c. confidence c = min (ss_score s / 3) 1 \<and> source c = Some rule_based
                  \<and> h_score c = Some (ss_score s))
           (filter (\<lambda>s. ss_score s \<ge> get_default 0.6 (min_engagement_score cfg)) scored) cs"
  proof (rule list.rel_mono_strong [OF a])
    fix s c
    assume s: "s \<in> set (filter (\<lambda>s. ss_score s \<ge> get_default 0.6 (min_engagement_score cfg)) scored)"
      and "c \<in> set cs"
      and c: "rule_based_highlight cfg segs s = Inr c"
    from s assms have "segment_index s < length segs" by simp
    from rule_based_highlight_fields [OF this, of cfg] c
    show "confidence c = min (ss_score s / 3) 1 \<and> source c = Some rule_based
                  \<and> h_score c = Some (ss_score s)"
      by auto
  qed
  with l show ?thesis by (simp add: combine_analyses_def)
qed

theorem rule_based_candidates_witness:
  "combine_analyses default_config (score_segments default_config scenario_segments) []
     scenario_segments = Inr [scenario_highlight]
   \<and> (\<exists>cs. combine_analyses default_config (score_segments default_config scenario_segments) []
           scenario_segments = Inr cs
       \<and> list_all2
           (\<lambda>s c. confidence c = min (ss_score s / 3) 1 \<and> source c = Some rule_based
                  \<and> h_score c = Some (ss_score s))
           (filter (\<lambda>s. ss_score s \<ge> get_default 0.6 (min_engagement_score default_config))
              (score_segments default_config scenario_segments)) cs)"
proof -
  have h: "\<forall>s \<in> set (score_segments default_config scenario_segments).
             segment_index s < length scenario_segments"
    using score_segments_index [of default_config scenario_segments] by simp
  have c: "combine_analyses default_config (score_segments default_config scenario_segments) []
     scenario_segments = Inr [scenario_highlight]"
    by code_simp
  from rule_based_candidates [OF h, of default_config] c show ?thesis by blast
qed

lemma ensure_clip_duration_bounds:
  assumes "ensure_clip_duration cfg chunk a b = (a', b')"
    and "get_default 25 (clip_duration_min cfg) \<le> get_default 65 (clip_duration_max cfg)"
  shows "b' - a' \<le> get_default 65 (clip_duration_max cfg)
       \<and> (b' - a' \<ge> get_default 25 (clip_duration_min cfg)
           \<or> a' = chunk_start_time chunk \<or> b' = chunk_end_time chunk)"
proof -
  define m where "m = get_default 25 (clip_duration_min cfg)"
  define M where "M = get_default 65 (clip_duration_max cfg)"
  from assms(2) have mM: "m \<le> M" by (simp add: m_def M_def)
  consider (short) "b - a < m" | (long) "\<not> b - a < m" "b - a > M" | (ok) "\<not> b - a < m" "\<not> b - a > M"
    by blast
  then show ?thesis
  proof cases
    case short
    with assms(1) have
      a': "a' = max (chunk_start_time chunk) (a - (m - (b - a)) / 2)"
      and b': "b' = min (chunk_end_time chunk) (b + (m - (b - a)) / 2)"
      by (simp_all add: ensure_clip_duration_def Let_def m_def [symmetric] M_def [symmetric])
    from a' b' mM show ?thesis
      unfolding m_def [symmetric] M_def [symmetric] by (auto simp: max_def min_def field_simps)
  next
    case long
    with assms(1) have "a' = a + (b - a - M) / 2" "b' = b - (b - a - M) / 2"
      by (simp_all add: ensure_clip_duration_def Let_def m_def [symmetric] M_def [symmetric])
    with mM show ?thesis
      unfolding m_def [symmetric] M_def [symmetric] by (auto simp: field_simps)
  next
    case ok
    with assms(1) have "a' = a" "b' = b"
      by (simp_all add: ensure_clip_duration_def Let_def m_def [symmetric] M_def [symmetric])
    with ok show ?thesis
      unfolding m_def [symmetric] M_def [symmetric] by auto
  qed
qed

lemma convert_highlight_window:
  assumes "convert_highlight cfg chunk item = Some g"
  shows "\<exists>a b. ensure_clip_duration cfg chunk a b = (start_time g, end_time g)"
proof -
  define ms where
    "ms = find_matching_segments (get_default [] (li_key_quotes item)) (chunk_segments chunk)"
  obtain a' b' where
    e: "ensure_clip_duration cfg chunk (seg_start (hd ms)) (seg_end (last ms)) = (a', b')"
    by (cases "ensure_clip_duration cfg chunk (seg_start (hd ms)) (seg_end (last ms))")
  from assms e have "start_time g = a'" "end_time g = b'"
    by (auto simp: convert_highlight_def Let_def ms_def [symmetric] split: if_splits)
  with e show ?thesis by auto
qed

lemma parse_llm_response_member:
  assumes "g \<in> set (parse_llm_response loads cfg response chunk)"
  shows "\<exists>item. convert_highlight cfg chunk item = Some g"
  using assms
  by (auto simp: parse_llm_response_def map_filter_def split: option.splits)

lemma combine_long_segment:
  "combine_analyses default_config (score_segments default_config long_segment) [] long_segment
     = Inr [long_highlight]"
  by code_simp

lemma parse_funny_chunk:
  "parse_llm_response funny_decoder default_config ''{}'' funny_chunk = [funny_highlight]"
  by code_simp

text \<open>
  Claim C2, as the code has it.
  \<^item> Rule-based extension, for a scored segment of the transcript: the window runs from the
    start of a segment \<open>s\<close> to the end of a segment \<open>e\<close>; its duration is at most the maximum
    unless it is a single segment (\<open>s = e\<close>, which is never trimmed), and at least the
    minimum unless it spans the whole transcript or the next segment would take it over
    the maximum (so trimming cut it back).
  \<^item> Semantic resolution, when minimum \<open>\<le>\<close> maximum: the duration is at most the maximum, and
    at least the minimum unless the window was clamped to the chunk's start or end.
\<close>

theorem resolved_window_bounds:
  "(segment_index seg < length segs
      \<and> ss_duration seg = window_duration segs (segment_index seg) (segment_index seg) \<longrightarrow>
      (\<exists>h s e. rule_based_highlight cfg segs seg = Inr h
         \<and> resolve_window cfg segs (segment_index seg) (ss_duration seg) = (s, e)
         \<and> s \<le> e \<and> e < length segs
         \<and> start_time h = seg_start (segs ! s) \<and> end_time h = seg_end (segs ! e)
         \<and> (end_time h - start_time h \<le> get_default 65 (clip_duration_max cfg) \<or> s = e)
         \<and> (end_time h - start_time h \<ge> get_default 25 (clip_duration_min cfg)
             \<or> (s = 0 \<and> Suc e = length segs)
             \<or> (Suc e < length segs
                 \<and> seg_end (segs ! Suc e) - seg_start (segs ! s)
                     > get_default 65 (clip_duration_max cfg)))))
   \<and> (g \<in> set (parse_llm_response loads cfg response chunk)
      \<and> get_default 25 (clip_duration_min cfg) \<le> get_default 65 (clip_duration_max cfg) \<longrightarrow>
        end_time g - start_time g \<le> get_default 65 (clip_duration_max cfg)
      \<and> (end_time g - start_time g \<ge> get_default 25 (clip_duration_min cfg)
          \<or> start_time g = chunk_start_time chunk \<or> end_time g = chunk_end_time chunk))"
proof -
  have rule: "\<exists>h s e. rule_based_highlight cfg segs seg = Inr h
         \<and> resolve_window cfg segs (segment_index seg) (ss_duration seg) = (s, e)
         \<and> s \<le> e \<and> e < length segs
         \<and> start_time h = seg_start (segs ! s) \<and> end_time h = seg_end (segs ! e)
         \<and> (end_time h - start_time h \<le> get_default 65 (clip_duration_max cfg) \<or> s = e)
         \<and> (end_time h - start_time h \<ge> get_default 25 (clip_duration_min cfg)
             \<or> (s = 0 \<and> Suc e = length segs)
             \<or> (Suc e < length segs
                 \<and> seg_end (segs ! Suc e) - seg_start (segs ! s)
                     > get_default 65 (clip_duration_max cfg)))"
    if a: "segment_index seg < length segs"
      and d: "ss_duration seg = window_duration segs (segment_index seg) (segment_index seg)"
  proof -
    obtain s e where w: "resolve_window cfg segs (segment_index seg) (ss_duration seg) = (s, e)"
      by (cases "resolve_window cfg segs (segment_index seg) (ss_duration seg)")
    from rule_based_highlight_fields [OF a, of cfg] w obtain h where
      h: "rule_based_highlight cfg segs seg = Inr h"
        "start_time h = seg_start (segs ! s)" "end_time h = seg_end (segs ! e)"
      by auto
    from resolve_window_props [OF w a d] h w show ?thesis
      by (auto simp: window_duration_def)
  qed
  have sem: "end_time g - start_time g \<le> get_default 65 (clip_duration_max cfg)
      \<and> (end_time g - start_time g \<ge> get_default 25 (clip_duration_min cfg)
          \<or> start_time g = chunk_start_time chunk \<or> end_time g = chunk_end_time chunk)"
    if g: "g \<in> set (parse_llm_response loads cfg response chunk)"
      and mM: "get_default 25 (clip_duration_min cfg) \<le> get_default 65 (clip_duration_max cfg)"
  proof -
    from parse_llm_response_member [OF g] obtain item where
      "convert_highlight cfg chunk item = Some g" by auto
    from convert_highlight_window [OF this] obtain a b where
      "ensure_clip_duration cfg chunk a b = (start_time g, end_time g)" by auto
    from ensure_clip_duration_bounds [OF this mM] show ?thesis .
  qed
  from rule sem show ?thesis by blast
qed

theorem resolved_window_bounds_witness:
  "(\<exists>h s e. rule_based_highlight default_config scenario_segments
                (score_segments default_config scenario_segments ! 1) = Inr h
         \<and> s \<le> e \<and> e < length scenario_segments
         \<and> start_time h = seg_start (scenario_segments ! s)
         \<and> end_time h = seg_end (scenario_segments ! e)
         \<and> (end_time h - start_time h \<le> 65 \<or> s = e)
         \<and> (end_time h - start_time h \<ge> 25
             \<or> (s = 0 \<and> Suc e = length scenario_segments)
             \<or> (Suc e < length scenario_segments
                 \<and> seg_end (scenario_segments ! Suc e) - seg_start (scenario_segments ! s) > 65)))
   \<and> end_time funny_highlight - start_time funny_highlight \<le> 65
   \<and> (end_time funny_highlight - start_time funny_highlight \<ge> 25
       \<or> start_time funny_highlight = chunk_start_time funny_chunk
       \<or> end_time funny_highlight = chunk_end_time funny_chunk)"
proof -
  have m: "score_segments default_config scenario_segments ! 1
             \<in> set (score_segments default_config scenario_segments)"
    by (simp add: score_segments_def scenario_segments_def)
  from score_segments_index [of default_config scenario_segments] m
  have a: "segment_index (score_segments default_config scenario_segments ! 1)
             < length scenario_segments
      \<and> ss_duration (score_segments default_config scenario_segments ! 1)
          = window_duration scenario_segments
              (segment_index (score_segments default_config scenario_segments ! 1))
              (segment_index (score_segments default_config scenario_segments ! 1))"
    by blast
  have g: "funny_highlight
             \<in> set (parse_llm_response funny_decoder default_config ''{}'' funny_chunk)"
    by (simp add: parse_funny_chunk)
  have c: "get_default 25 (clip_duration_min default_config)
             \<le> get_default (65::real) (clip_duration_max default_config)"
    by (simp add: default_config_def get_default_def)
  have d: "get_default (25::real) (clip_duration_min default_config) = 25"
    "get_default (65::real) (clip_duration_max default_config) = 65"
    by (simp_all add: default_config_def get_default_def)
  from resolved_window_bounds [of "score_segments default_config scenario_segments ! 1"
      scenario_segments default_config funny_highlight funny_decoder "''{}''" funny_chunk]
    a g c
  show ?thesis unfolding d by blast
qed

text \<open>The claim as the specification words it fails on both paths. A single segment of 100
  seconds gives a rule-based window of 100 seconds, above the default maximum 65. A
  semantic candidate matching the 5 second segment at the start of a 100 second chunk
  is grown to \<open>[0, 15]\<close>: below the default minimum 25, and not the available span.\<close>

theorem resolved_window_bounds_counterexample:
  "combine_analyses default_config (score_segments default_config long_segment) [] long_segment
     = Inr [long_highlight]
   \<and> end_time long_highlight - start_time long_highlight = 100
   \<and> get_default 65 (clip_duration_max default_config) = (65::real)
   \<and> parse_llm_response funny_decoder default_config ''{}'' funny_chunk = [funny_highlight]
   \<and> end_time funny_highlight - start_time funny_highlight = 15
   \<and> get_default 25 (clip_duration_min default_config) = (25::real)
   \<and> chunk_end_time funny_chunk - chunk_start_time funny_chunk = 100"
proof -
  have "end_time long_highlight - start_time long_highlight = 100"
    by (simp add: long_highlight_def)
  moreover have "get_default 65 (clip_duration_max default_config) = (65::real)"
    by (simp add: default_config_def get_default_def)
  moreover have "end_time funny_highlight - start_time funny_highlight = 15"
    by (simp add: funny_highlight_def)
  moreover have "get_default 25 (clip_duration_min default_config) = (25::real)"
    by (simp add: default_config_def get_default_def)
  moreover have "chunk_end_time funny_chunk - chunk_start_time funny_chunk = 100"
    by (simp add: funny_chunk_def)
  ultimately show ?thesis
    using combine_long_segment parse_funny_chunk by blast
qed

subsection \<open>LLM analyzer\<close>

lemma parse_llm_response_unparseable:
  assumes "\<forall>json_text. json_match response = Some json_text \<longrightarrow> loads json_text = None"
  shows "parse_llm_response loads cfg response chunk = []"
  using assms by (simp add: parse_llm_response_def split: option.splits)

lemma rank_highlights_Nil: "rank_highlights [] = []"
  by (simp add: rank_highlights_def sort_by_confidence_def)

lemma fallback_funny_segments: "fallback_analysis [] funny_segments = [funny_fallback]"
  by code_simp

text \<open>
  Claim C4, as the code has it. A response in which no JSON object is found, or whose
  JSON cannot be decoded, makes \<open>parse_llm_response\<close> return the empty list: nothing is
  raised and the chunk contributes no candidate. When that happens for every chunk,
  \<open>analyze_content\<close> with a loaded model returns the empty list; it does not run the
  fallback analysis. The fallback analysis is what \<open>analyze_content\<close> returns when no model
  is loaded, and it returns at most three highlights.
\<close>

theorem unparseable_response_yields_nothing:
  "((\<forall>json_text. json_match response = Some json_text \<longrightarrow> loads json_text = None) \<longrightarrow>
       parse_llm_response loads cfg response chunk = [])
   \<and> ((\<forall>c \<in> set (split_transcript full_transcript segments). \<forall>r.
          model (chunk_text c) metadata = Inr r \<longrightarrow>
          (\<forall>json_text. json_match r = Some json_text \<longrightarrow> loads json_text = None)) \<longrightarrow>
       analyze_content (Some model) loads cfg full_transcript segments metadata = [])
   \<and> analyze_content None loads cfg full_transcript segments metadata
       = fallback_analysis full_transcript segments
   \<and> length (fallback_analysis full_transcript segments) \<le> 3"
proof -
  have chunks: "analyze_content (Some model) loads cfg full_transcript segments metadata = []"
    if a: "\<forall>c \<in> set (split_transcript full_transcript segments). \<forall>r.
          model (chunk_text c) metadata = Inr r \<longrightarrow>
          (\<forall>json_text. json_match r = Some json_text \<longrightarrow> loads json_text = None)"
  proof -
    have "analyze_chunk model loads cfg metadata c = []"
      if "c \<in> set (split_transcript full_transcript segments)" for c
      using a that
      by (auto simp: analyze_chunk_def parse_llm_response_unparseable split: sum.splits)
    then have "concat (map (analyze_chunk model loads cfg metadata)
                 (split_transcript full_transcript segments)) = []"
      by simp
    then show ?thesis
      unfolding analyze_content_def by (simp only: Let_def option.case rank_highlights_Nil)
  qed
  have "length (fallback_analysis full_transcript segments) \<le> 3"
    by (simp add: fallback_analysis_def)
  moreover have "analyze_content None loads cfg full_transcript segments metadata
       = fallback_analysis full_transcript segments"
    by (simp add: analyze_content_def)
  ultimately show ?thesis
    using chunks parse_llm_response_unparseable [of response loads cfg chunk] by blast
qed

theorem unparseable_response_yields_nothing_witness:
  "parse_llm_response failing_decoder default_config ''{}'' funny_chunk = []
   \<and> analyze_content (Some garbage_model) failing_decoder default_config [] funny_segments
       no_metadata = []"
proof -
  have a: "\<forall>json_text. json_match ''{}'' = Some json_text \<longrightarrow> failing_decoder json_text = None"
    by (simp add: failing_decoder_def)
  have b: "\<forall>c \<in> set (split_transcript [] funny_segments). \<forall>r.
          garbage_model (chunk_text c) no_metadata = Inr r \<longrightarrow>
          (\<forall>json_text. json_match r = Some json_text \<longrightarrow> failing_decoder json_text = None)"
    by (simp add: failing_decoder_def)
  from unparseable_response_yields_nothing [of "''{}''" failing_decoder default_config funny_chunk
      "[]" funny_segments garbage_model no_metadata] a b
  show ?thesis by blast
qed

text \<open>The claim as the specification words it fails: with a loaded model whose answer cannot
  be parsed, the result is empty although the fallback analysis of the same segments
  finds a highlight.\<close>

theorem unparseable_response_counterexample:
  "json_match ''I cannot answer that.'' = None
   \<and> analyze_content (Some garbage_model) failing_decoder default_config [] funny_segments
       no_metadata = []
   \<and> fallback_analysis [] funny_segments = [funny_fallback]"
proof -
  have "json_match ''I cannot answer that.'' = None"
    by (simp add: json_match_def)
  moreover have "analyze_content (Some garbage_model) failing_decoder default_config []
      funny_segments no_metadata = []"
    by code_simp
  ultimately show ?thesis using fallback_funny_segments by blast
qed

subsection \<open>Hashtags\<close>















subsection \<open>The pipeline\<close>

lemma body_textless:
  "find_highlights_body None failing_decoder no_random default_config textless_transcript
     no_metadata = Inl KeyError"
  by code_simp

lemma body_zero_length:
  "find_highlights_body None failing_decoder no_random zero_min_config zero_length_transcript
     no_metadata = Inl ZeroDivisionError"
  by code_simp

text \<open>
  Claim C8. \<open>find_highlights\<close> never raises: for every input it returns a list; a transcript
  without segments gives the empty list; and whenever the body of its \<^verbatim>\<open>try\<close> block raises,
  the result is the empty list.
\<close>

theorem find_highlights_never_raises:
  "(\<exists>result. find_highlights model loads rnd cfg transcript metadata = Inr result)
   \<and> (get_default [] (t_segments transcript) = [] \<longrightarrow>
        find_highlights model loads rnd cfg transcript metadata = Inr [])
   \<and> (isl (find_highlights_body model loads rnd cfg transcript metadata) \<longrightarrow>
        find_highlights model loads rnd cfg transcript metadata = Inr [])
   \<and> (\<not> isl (find_highlights_body model loads rnd cfg transcript metadata) \<longrightarrow>
        find_highlights model loads rnd cfg transcript metadata
          = find_highlights_body model loads rnd cfg transcript metadata)"
proof -
  have e: "find_highlights_body model loads rnd cfg transcript metadata = Inr []"
    if "get_default [] (t_segments transcript) = []"
    using that by (simp add: find_highlights_body_def)
  show ?thesis
  proof (cases "find_highlights_body model loads rnd cfg transcript metadata")
    case (Inl err)
    with e show ?thesis by (auto simp: find_highlights_def)
  next
    case (Inr result)
    with e show ?thesis by (auto simp: find_highlights_def)
  qed
qed

theorem find_highlights_never_raises_witness:
  "find_highlights None failing_decoder no_random default_config empty_transcript no_metadata
     = Inr []
   \<and> find_highlights_body None failing_decoder no_random default_config textless_transcript
       no_metadata = Inl KeyError
   \<and> find_highlights None failing_decoder no_random default_config textless_transcript
       no_metadata = Inr []
   \<and> find_highlights_body None failing_decoder no_random zero_min_config zero_length_transcript
       no_metadata = Inl ZeroDivisionError
   \<and> find_highlights None failing_decoder no_random zero_min_config zero_length_transcript
       no_metadata = Inr []"
proof -
  have a: "get_default [] (t_segments empty_transcript) = []"
    by (simp add: empty_transcript_def get_default_def)
  have b: "isl (find_highlights_body None failing_decoder no_random default_config
                  textless_transcript no_metadata)"
    by (simp add: body_textless)
  have c: "isl (find_highlights_body None failing_decoder no_random zero_min_config
                  zero_length_transcript no_metadata)"
    by (simp add: body_zero_length)
  from find_highlights_never_raises [of None failing_decoder no_random default_config
      empty_transcript no_metadata] a
  have 1: "find_highlights None failing_decoder no_random default_config empty_transcript
             no_metadata = Inr []"
    by blast
  from find_highlights_never_raises [of None failing_decoder no_random default_config
      textless_transcript no_metadata] b
  have 2: "find_highlights None failing_decoder no_random default_config textless_transcript
             no_metadata = Inr []"
    by blast
  from find_highlights_never_raises [of None failing_decoder no_random zero_min_config
      zero_length_transcript no_metadata] c
  have 3: "find_highlights None failing_decoder no_random zero_min_config
             zero_length_transcript no_metadata = Inr []"
    by blast
  from 1 2 3 body_textless body_zero_length show ?thesis by blast
qed

end
